theory Spec2Isabelle
  imports Complex_Main "HOL-Library.Char_ord" "HOL-Library.List_Lexorder" "HOL-Library.Sublist"
    "HOL-Library.Multiset"
begin

section \<open>Python values and exceptions\<close>

text \<open>
  The framework works on decoded JSON/YAML documents, which the source types as
  \<^verbatim>\<open>Dict[str, Any]\<close>. A value is modelled by \<open>py_value\<close>; a dict is an
  association list in insertion order (Python dicts iterate in insertion order and have
  distinct keys). Strings are byte strings. A float carries a real number: the code never
  does arithmetic on a float of a document.
\<close>

datatype py_value =
    PNone
  | PBool bool
  | PInt int
  | PFloat real
  | PStr string
  | PList "py_value list"
  | PDict "(string \<times> py_value) list"

text \<open>
  Exceptions are values. \<open>InvalidLiteral s\<close> is the \<^verbatim>\<open>ValueError\<close> that
  \<^verbatim>\<open>int(s)\<close> raises; \<open>ValueError m\<close> is a \<^verbatim>\<open>ValueError\<close> raised by the
  framework with message \<open>m\<close>.
\<close>

datatype py_error =
    KeyError string
  | TypeError
  | AttributeError
  | InvalidLiteral string
  | ValueError string
  | FileNotFoundError string
  | OtherException string

text \<open>Truthiness, as \<^verbatim>\<open>if x:\<close> and \<^verbatim>\<open>not x\<close> test it.\<close>

fun truthy :: "py_value \<Rightarrow> bool" where
  "truthy PNone = False"
| "truthy (PBool b) = b"
| "truthy (PInt i) = (i \<noteq> 0)"
| "truthy (PFloat x) = (x \<noteq> 0)"
| "truthy (PStr s) = (s \<noteq> [])"
| "truthy (PList xs) = (xs \<noteq> [])"
| "truthy (PDict kvs) = (kvs \<noteq> [])"

text \<open>\<^verbatim>\<open>s.startswith(p)\<close>\<close>

definition startswith :: "string \<Rightarrow> string \<Rightarrow> bool" where
  "startswith s p = (take (length p) s = p)"

text \<open>\<^verbatim>\<open>d.get(k, default)\<close> on a dict.\<close>

definition dict_get :: "(string \<times> py_value) list \<Rightarrow> string \<Rightarrow> py_value \<Rightarrow> py_value" where
  "dict_get kvs k d = (case map_of kvs k of Some v \<Rightarrow> v | None \<Rightarrow> d)"

text \<open>\<^verbatim>\<open>x.get(k, default)\<close> on any value: only a dict has the method.\<close>

fun py_get :: "py_value \<Rightarrow> string \<Rightarrow> py_value \<Rightarrow> py_error + py_value" where
  "py_get (PDict kvs) k d = Inr (dict_get kvs k d)"
| "py_get _ k d = Inl AttributeError"

section \<open>Endpoints (parser.py)\<close>

text \<open>
  The dataclass \<^verbatim>\<open>Endpoint\<close>. Its field \<^verbatim>\<open>method\<close> is \<open>http_method\<close> here (the
  source's name is reserved in Isabelle). The response map keeps its iteration order.
\<close>

record endpoint =
  path :: string
  http_method :: string
  operation_id :: "string option"
  summary :: "string option"
  description :: "string option"
  parameters :: "py_value list"
  request_body :: "py_value option"
  responses :: "(string \<times> (string \<times> py_value) list) list"
  tags :: "string list"
  security :: "py_value list"

section \<open>Endpoint filtering (generator.py, \<^verbatim>\<open>TestGenerator._filter_endpoints\<close>)\<close>

text \<open>
  \<^verbatim>\<open>
  if include_only:
      return [ep for ep in endpoints if ep.path in include_only]
  if exclude:
      return [ep for ep in endpoints if ep.path not in exclude]
  return endpoints
  \<close>
\<close>

definition filter_endpoints :: "endpoint list \<Rightarrow> string list \<Rightarrow> string list \<Rightarrow> endpoint list" where
  "filter_endpoints endpoints exclude include_only =
     (if include_only \<noteq> [] then [ep \<leftarrow> endpoints. path ep \<in> set include_only]
      else if exclude \<noteq> [] then [ep \<leftarrow> endpoints. path ep \<notin> set exclude]
      else endpoints)"

section \<open>Test results and their summary (executor.py)\<close>

record test_result =
  test_file :: string
  success :: bool
  output_text :: string
  duration :: real
  exit_code :: int
  error_message :: "string option"

record execution_results =
  total_tests :: int
  passed_tests :: int
  failed_tests :: int
  total_duration :: real
  results :: "test_result list"
  overall_success :: bool

text \<open>
  The summary block of \<^verbatim>\<open>TestExecutor.run_tests\<close>:
  \<^verbatim>\<open>
  passed_tests = sum(1 for r in results if r.success)
  failed_tests = len(results) - passed_tests
  return ExecutionResults(total_tests=len(results), passed_tests=passed_tests,
      failed_tests=failed_tests, total_duration=total_duration, results=results,
      success=failed_tests == 0)
  \<close>
  The field \<^verbatim>\<open>output\<close> of \<^verbatim>\<open>TestResult\<close> is \<open>output_text\<close> here (\<open>output\<close> is
  reserved in Isabelle). The field \<^verbatim>\<open>success\<close> of \<^verbatim>\<open>ExecutionResults\<close> is \<open>overall_success\<close> here (a
  record field name is global in HOL, and \<open>success\<close> is the field of \<open>test_result\<close>).
\<close>

definition calculate_summary :: "real \<Rightarrow> test_result list \<Rightarrow> execution_results" where
  "calculate_summary total_dur rs =
     (let passed = (\<Sum>r \<leftarrow> [r \<leftarrow> rs. success r]. (1::int));
          failed = int (length rs) - passed
      in \<lparr>total_tests = int (length rs), passed_tests = passed, failed_tests = failed,
          total_duration = total_dur, results = rs, overall_success = (failed = 0)\<rparr>)"

section \<open>Python's \<^verbatim>\<open>int(str)\<close>\<close>

text \<open>
  \<^verbatim>\<open>int(s)\<close> on a string, base 10: surrounding whitespace is stripped, one sign is
  allowed, and the digits may be grouped by single underscores. Anything else raises
  \<^verbatim>\<open>ValueError\<close>. The model reads ASCII only (Python also accepts the decimal digits and
  the whitespace of other scripts); every statement below is about ASCII digit strings or
  about a concrete literal.
\<close>

definition is_digit :: "char \<Rightarrow> bool" where
  "is_digit c = (CHR ''0'' \<le> c \<and> c \<le> CHR ''9'')"

definition digit_val :: "char \<Rightarrow> nat" where
  "digit_val c = of_char c - of_char CHR ''0''"

definition decimal_value :: "string \<Rightarrow> nat" where
  "decimal_value s = foldl (\<lambda>a c. 10 * a + digit_val c) 0 s"

definition is_space :: "char \<Rightarrow> bool" where
  "is_space c = (c \<in> set [CHR '' '', CHR 0x09, CHR 0x0A, CHR 0x0B, CHR 0x0C, CHR 0x0D])"

definition strip :: "string \<Rightarrow> string" where
  "strip s = rev (dropWhile is_space (rev (dropWhile is_space s)))"

text \<open>Digits with single underscores between them; \<open>prev\<close>: the last character was a digit.\<close>

fun digits_ok :: "bool \<Rightarrow> string \<Rightarrow> bool" where
  "digits_ok prev [] = prev"
| "digits_ok prev (c # r) =
     (if is_digit c then digits_ok True r
      else if c = CHR ''_'' \<and> prev then digits_ok False r
      else False)"

definition py_int :: "string \<Rightarrow> py_error + int" where
  "py_int s =
     (let t = strip s;
          neg = (t \<noteq> [] \<and> hd t = CHR ''-'');
          body = (if t \<noteq> [] \<and> (hd t = CHR ''-'' \<or> hd t = CHR ''+'') then tl t else t)
      in if digits_ok False body
         then Inr ((if neg then - 1 else 1) * int (decimal_value (filter is_digit body)))
         else Inl (InvalidLiteral s))"

section \<open>Python's \<^verbatim>\<open>str(int)\<close>\<close>

text \<open>\<^verbatim>\<open>str(n)\<close> for an integer.\<close>

definition digit_char :: "nat \<Rightarrow> char" where
  "digit_char n = ''0123456789'' ! (n mod 10)"

fun str_nat :: "nat \<Rightarrow> string" where
  "str_nat n = (if n < 10 then [digit_char n] else str_nat (n div 10) @ [digit_char n])"

declare str_nat.simps [simp del]

definition str_int :: "int \<Rightarrow> string" where
  "str_int i = (if i < 0 then ''-'' @ str_nat (nat (- i)) else str_nat (nat i))"

section \<open>Test-case derivation (parser.py, \<^verbatim>\<open>OpenAPIParser.get_endpoint_test_cases\<close>)\<close>

text \<open>
  A test case is a dict with six fixed keys in the source; the keys \<^verbatim>\<open>name\<close>,
  \<^verbatim>\<open>method\<close> and \<^verbatim>\<open>path\<close> are \<open>tc_name\<close>, \<open>tc_method\<close> and \<open>tc_path\<close> here.
\<close>

record test_case =
  tc_name :: string
  tc_method :: string
  tc_path :: string
  expected_status :: int
  response_schema :: py_value
  test_type :: string

text \<open>
  \<^verbatim>\<open>response_def.get('content', {}).get('application/json', {}).get('schema')\<close>:
  the first \<^verbatim>\<open>get\<close> is on a dict, the next two are on whatever the document holds there.
\<close>

definition response_schema_of :: "(string \<times> py_value) list \<Rightarrow> py_error + py_value" where
  "response_schema_of response_def =
     (case py_get (dict_get response_def ''content'' (PDict [])) ''application/json'' (PDict []) of
        Inl e \<Rightarrow> Inl e
      | Inr media \<Rightarrow> py_get media ''schema'' PNone)"

text \<open>
  The first loop: it stops at the first key that starts with \<^verbatim>\<open>"2"\<close>, leaving
  \<^verbatim>\<open>status_code\<close> and \<^verbatim>\<open>success_response\<close> bound to that entry.
\<close>

fun find_success ::
  "(string \<times> (string \<times> py_value) list) list \<Rightarrow> (string \<times> (string \<times> py_value) list) option" where
  "find_success [] = None"
| "find_success ((status_code, response_def) # rest) =
     (if startswith status_code ''2'' then Some (status_code, response_def)
      else find_success rest)"

text \<open>
  \<^verbatim>\<open>if success_response:\<close> tests truthiness: \<^verbatim>\<open>None\<close> (no key found) and an empty
  response definition both skip the success case. The dict literal evaluates its values in
  order: the name, then \<^verbatim>\<open>int(status_code)\<close>, then the schema. \<open>str_of\<close> is Python's
  \<^verbatim>\<open>str()\<close>, which formats the description inside the f-string.
\<close>

definition success_cases :: "(py_value \<Rightarrow> string) \<Rightarrow> endpoint \<Rightarrow> py_error + test_case list" where
  "success_cases str_of ep =
     (case find_success (responses ep) of
        None \<Rightarrow> Inr []
      | Some (status_code, success_response) \<Rightarrow>
          if success_response = [] then Inr []
          else (case py_int status_code of
                  Inl e \<Rightarrow> Inl e
                | Inr n \<Rightarrow>
                   (case response_schema_of success_response of
                      Inl e \<Rightarrow> Inl e
                    | Inr sch \<Rightarrow>
                        Inr [\<lparr>tc_name = http_method ep @ '' '' @ path ep @ '' returns '' @
                                 str_of (dict_get success_response ''description'' (PStr ''success'')),
                              tc_method = http_method ep, tc_path = path ep,
                              expected_status = n, response_schema = sch,
                              test_type = ''success''\<rparr>])))"

text \<open>The second loop, over the whole response map again.\<close>

fun error_cases ::
  "endpoint \<Rightarrow> (string \<times> (string \<times> py_value) list) list \<Rightarrow> py_error + test_case list" where
  "error_cases ep [] = Inr []"
| "error_cases ep ((status_code, response_def) # rest) =
     (if startswith status_code ''4'' \<or> startswith status_code ''5'' then
        (case py_int status_code of
           Inl e \<Rightarrow> Inl e
         | Inr n \<Rightarrow>
            (case response_schema_of response_def of
               Inl e \<Rightarrow> Inl e
             | Inr sch \<Rightarrow>
                (case error_cases ep rest of
                   Inl e \<Rightarrow> Inl e
                 | Inr cs \<Rightarrow>
                     Inr (\<lparr>tc_name = http_method ep @ '' '' @ path ep @ '' returns '' @ status_code,
                           tc_method = http_method ep, tc_path = path ep,
                           expected_status = n, response_schema = sch,
                           test_type = ''error''\<rparr> # cs))))
      else error_cases ep rest)"

definition get_endpoint_test_cases :: "(py_value \<Rightarrow> string) \<Rightarrow> endpoint \<Rightarrow> py_error + test_case list" where
  "get_endpoint_test_cases str_of ep =
     (case success_cases str_of ep of
        Inl e \<Rightarrow> Inl e
      | Inr s \<Rightarrow> (case error_cases ep (responses ep) of
                    Inl e \<Rightarrow> Inl e
                  | Inr es \<Rightarrow> Inr (s @ es)))"

subsection \<open>The notions the statements about derivation use\<close>

definition is_success_key :: "string \<Rightarrow> bool" where
  "is_success_key k = startswith k ''2''"

definition is_error_key :: "string \<Rightarrow> bool" where
  "is_error_key k = (startswith k ''4'' \<or> startswith k ''5'')"

definition all_digits :: "string \<Rightarrow> bool" where
  "all_digits s = (s \<noteq> [] \<and> list_all is_digit s)"

text \<open>Every key that starts with 2, 4 or 5 is a string of decimal digits.\<close>

definition status_keys_decimal :: "(string \<times> (string \<times> py_value) list) list \<Rightarrow> bool" where
  "status_keys_decimal rs =
     list_all (\<lambda>(k, rd). \<not> (is_success_key k \<or> is_error_key k) \<or> all_digits k) rs"

text \<open>
  A response definition whose \<^verbatim>\<open>content\<close>, when present, is a dict, and whose
  \<^verbatim>\<open>application/json\<close> entry, when present, is a dict (as OpenAPI requires).
\<close>

definition content_shaped :: "(string \<times> py_value) list \<Rightarrow> bool" where
  "content_shaped rd =
     (case map_of rd ''content'' of
        None \<Rightarrow> True
      | Some (PDict c) \<Rightarrow> (case map_of c ''application/json'' of
                             None \<Rightarrow> True | Some (PDict m) \<Rightarrow> True | Some _ \<Rightarrow> False)
      | Some _ \<Rightarrow> False)"

text \<open>Every response definition under a key that starts with 2, 4 or 5 is so shaped.\<close>

definition status_content_shaped :: "(string \<times> (string \<times> py_value) list) list \<Rightarrow> bool" where
  "status_content_shaped rs =
     list_all (\<lambda>(k, rd). \<not> (is_success_key k \<or> is_error_key k) \<or> content_shaped rd) rs"

text \<open>\<^verbatim>\<open>responses[status].content["application/json"].schema\<close> when present, else absent.\<close>

definition declared_schema :: "(string \<times> py_value) list \<Rightarrow> py_value" where
  "declared_schema rd =
     (case map_of rd ''content'' of
        Some (PDict c) \<Rightarrow> (case map_of c ''application/json'' of
                             Some (PDict m) \<Rightarrow> dict_get m ''schema'' PNone | _ \<Rightarrow> PNone)
      | _ \<Rightarrow> PNone)"

text \<open>The first entry, in iteration order, whose key starts with \<^verbatim>\<open>"2"\<close>.\<close>

definition first_success ::
  "(string \<times> (string \<times> py_value) list) list \<Rightarrow> (string \<times> (string \<times> py_value) list) option" where
  "first_success rs = find (\<lambda>(k, rd). is_success_key k) rs"

definition success_case_for ::
  "(py_value \<Rightarrow> string) \<Rightarrow> endpoint \<Rightarrow> string \<times> (string \<times> py_value) list \<Rightarrow> test_case" where
  "success_case_for str_of ep = (\<lambda>(k, rd).
     \<lparr>tc_name = http_method ep @ '' '' @ path ep @ '' returns '' @
                 str_of (dict_get rd ''description'' (PStr ''success'')),
      tc_method = http_method ep, tc_path = path ep,
      expected_status = int (decimal_value k), response_schema = declared_schema rd,
      test_type = ''success''\<rparr>)"

definition error_case_for :: "endpoint \<Rightarrow> string \<times> (string \<times> py_value) list \<Rightarrow> test_case" where
  "error_case_for ep = (\<lambda>(k, rd).
     \<lparr>tc_name = http_method ep @ '' '' @ path ep @ '' returns '' @ k,
      tc_method = http_method ep, tc_path = path ep,
      expected_status = int (decimal_value k), response_schema = declared_schema rd,
      test_type = ''error''\<rparr>)"

text \<open>The entries whose key the derivation converts with \<^verbatim>\<open>int\<close>, in the order of the cases.\<close>

definition converted_entries ::
  "(string \<times> (string \<times> py_value) list) list \<Rightarrow> (string \<times> (string \<times> py_value) list) list" where
  "converted_entries rs =
     (case first_success rs of
        None \<Rightarrow> []
      | Some (k, rd) \<Rightarrow> if rd = [] then [] else [(k, rd)])
     @ filter (\<lambda>(k, rd). is_error_key k) rs"

text \<open>
  \<^verbatim>\<open>str()\<close> for the concrete evaluations, on strings, \<^verbatim>\<open>None\<close>, booleans and
  integers. The evaluations apply it to string descriptions only; the theorems hold for
  every \<open>str_of\<close>.
\<close>

definition str_of_text :: "py_value \<Rightarrow> string" where
  "str_of_text v =
     (case v of
        PStr s \<Rightarrow> s
      | PNone \<Rightarrow> ''None''
      | PBool b \<Rightarrow> (if b then ''True'' else ''False'')
      | PInt i \<Rightarrow> str_int i
      | _ \<Rightarrow> [])"

section \<open>The execution engine (executor.py)\<close>

subsection \<open>Paths and discovery (\<^verbatim>\<open>TestExecutor._find_test_files\<close>)\<close>

text \<open>
  A \<^verbatim>\<open>pathlib.Path\<close> is the list of its components; \<^verbatim>\<open>str(path)\<close> joins them with
  \<^verbatim>\<open>/\<close>. Paths compare component by component, each component as a string, which is the
  order of \<open>HOL-Library.List_Lexorder\<close> on lists of strings.
\<close>

fun path_str :: "string list \<Rightarrow> string" where
  "path_str [] = ''.''"
| "path_str [c] = c"
| "path_str (c # cs) = c @ ''/'' @ path_str cs"

definition endswith :: "string \<Rightarrow> string \<Rightarrow> bool" where
  "endswith s p = (length p \<le> length s \<and> drop (length s - length p) s = p)"

text \<open>
  The directory is given by the relative paths of all entries below it (\<open>None\<close>: it does
  not exist). \<^verbatim>\<open>output_dir.glob('*.bats')\<close> yields the entries directly in the directory
  whose name ends in \<^verbatim>\<open>.bats\<close>; \<^verbatim>\<open>output_dir.glob('**/*.bats')\<close> yields such entries
  in "this directory and all subdirectories, recursively" (the pathlib documentation).
\<close>

definition glob_bats :: "string list \<Rightarrow> string list list \<Rightarrow> string list list" where
  "glob_bats output_dir listing =
     map (\<lambda>p. output_dir @ p) [p \<leftarrow> listing. length p = 1 \<and> endswith (last p) ''.bats'']"

definition rglob_bats :: "string list \<Rightarrow> string list list \<Rightarrow> string list list" where
  "rglob_bats output_dir listing =
     map (\<lambda>p. output_dir @ p) [p \<leftarrow> listing. p \<noteq> [] \<and> endswith (last p) ''.bats'']"

text \<open>
  \<^verbatim>\<open>
  test_files = []
  if output_dir.exists():
      for pattern in ['*.bats', '**/*.bats']:
          test_files.extend(output_dir.glob(pattern))
  return sorted(test_files)
  \<close>
\<close>

definition find_test_files :: "string list \<Rightarrow> string list list option \<Rightarrow> string list list" where
  "find_test_files output_dir fs =
     sort (case fs of
             None \<Rightarrow> []
           | Some listing \<Rightarrow> glob_bats output_dir listing @ rglob_bats output_dir listing)"

subsection \<open>Running one artifact (\<^verbatim>\<open>TestExecutor._run_single_test\<close>)\<close>

text \<open>
  What \<^verbatim>\<open>subprocess.run\<close> does is the environment's: it returns a completed process
  (return code, stdout, stderr) or raises; an exception carries its text \<^verbatim>\<open>str(e)\<close>.
\<close>

datatype proc_outcome =
    Completed int string string
  | TimeoutExpired
  | FileNotFound string
  | CalledProcessError string
  | OtherError string

record proc_call =
  argv :: "string list"
  time_limit :: "int option"
  cwd :: "string list option"

text \<open>
  The lines the engine prints, by what they show: \<^verbatim>\<open>Running: <command>\<close>; the status
  line of \<^verbatim>\<open>_print_test_result\<close> (a check mark or a cross, the file, the duration);
  its \<^verbatim>\<open>Error: <message>\<close> line. \<^verbatim>\<open>print\<close> returns or raises (the marks are not
  ASCII: a standard output that cannot encode them raises \<^verbatim>\<open>UnicodeEncodeError\<close>;
  a closed pipe raises \<^verbatim>\<open>BrokenPipeError\<close>); \<open>Some e\<close> is the text of the exception.
\<close>

datatype console_line =
    Running "string list"
  | Status_line test_result
  | Error_line string

text \<open>
  The world \<open>'w\<close> is whatever the processes, the clock and the console depend on; the
  state of the engine pairs it with the list of the process calls made so far.
\<close>

record 'w system =
  run_process :: "proc_call \<Rightarrow> 'w \<Rightarrow> proc_outcome \<times> 'w"
  time_now :: "'w \<Rightarrow> real"
  console_print :: "console_line \<Rightarrow> 'w \<Rightarrow> string option \<times> 'w"

definition subprocess_run ::
  "'w system \<Rightarrow> proc_call \<Rightarrow> 'w \<times> proc_call list \<Rightarrow> proc_outcome \<times> ('w \<times> proc_call list)" where
  "subprocess_run sys c st =
     (case run_process sys c (fst st) of (r, w') \<Rightarrow> (r, (w', snd st @ [c])))"

definition py_print ::
  "'w system \<Rightarrow> console_line \<Rightarrow> 'w \<times> proc_call list \<Rightarrow> string option \<times> ('w \<times> proc_call list)" where
  "py_print sys line st =
     (case console_print sys line (fst st) of (r, w') \<Rightarrow> (r, (w', snd st)))"

text \<open>\<^verbatim>\<open>if verbose: print(...)\<close>\<close>

definition print_if ::
  "'w system \<Rightarrow> bool \<Rightarrow> console_line \<Rightarrow> 'w \<times> proc_call list \<Rightarrow> string option \<times> ('w \<times> proc_call list)" where
  "print_if sys verbose line st = (if verbose then py_print sys line st else (None, st))"

text \<open>
  \<^verbatim>\<open>
  print(status, result.test_file, duration)
  if not result.success and result.error_message:
      print(f"  Error: {result.error_message}")
  \<close>
\<close>

definition print_test_result ::
  "'w system \<Rightarrow> test_result \<Rightarrow> 'w \<times> proc_call list \<Rightarrow> string option \<times> ('w \<times> proc_call list)" where
  "print_test_result sys result st =
     (case py_print sys (Status_line result) st of
        (Some e, st1) \<Rightarrow> (Some e, st1)
      | (None, st1) \<Rightarrow>
          (case error_message result of
             Some m \<Rightarrow>
               if \<not> success result \<and> m \<noteq> [] then py_print sys (Error_line m) st1
               else (None, st1)
           | None \<Rightarrow> (None, st1)))"

text \<open>\<^verbatim>\<open>if verbose: self._print_test_result(result)\<close>\<close>

definition print_result_if ::
  "'w system \<Rightarrow> bool \<Rightarrow> test_result \<Rightarrow> 'w \<times> proc_call list \<Rightarrow> string option \<times> ('w \<times> proc_call list)" where
  "print_result_if sys verbose result st =
     (if verbose then print_test_result sys result st else (None, st))"

text \<open>
  \<^verbatim>\<open>
  try:
      result = subprocess.run(['bats', '--version'], capture_output=True, text=True)
      return result.returncode == 0
  except (subprocess.CalledProcessError, FileNotFoundError):
      return False
  \<close>
  Any other exception leaves the function.
\<close>

definition check_bats_available ::
  "'w system \<Rightarrow> 'w \<times> proc_call list \<Rightarrow> (proc_outcome + bool) \<times> ('w \<times> proc_call list)" where
  "check_bats_available sys st =
     (case subprocess_run sys \<lparr>argv = [''bats'', ''--version''], time_limit = None, cwd = None\<rparr> st of
        (Completed rc out err, st') \<Rightarrow> (Inr (rc = 0), st')
      | (FileNotFound m, st') \<Rightarrow> (Inr False, st')
      | (CalledProcessError m, st') \<Rightarrow> (Inr False, st')
      | (e, st') \<Rightarrow> (Inl e, st'))"

text \<open>
  The three ways \<^verbatim>\<open>_run_single_test\<close> builds its result: the normal return, the handler of
  \<^verbatim>\<open>subprocess.TimeoutExpired\<close> and the handler of every other \<^verbatim>\<open>Exception\<close>.
\<close>

definition timed_out_result :: "string list \<Rightarrow> int \<Rightarrow> real \<Rightarrow> test_result" where
  "timed_out_result tfile timeout dur =
     \<lparr>test_file = path_str tfile, success = False, output_text = [], duration = dur,
      exit_code = 1,
      error_message = Some (''Test timed out after '' @ str_int timeout @ '' seconds'')\<rparr>"

definition errored_result :: "string list \<Rightarrow> string \<Rightarrow> real \<Rightarrow> test_result" where
  "errored_result tfile msg dur =
     \<lparr>test_file = path_str tfile, success = False, output_text = [], duration = dur,
      exit_code = 1, error_message = Some msg\<rparr>"

fun handle_exception :: "string list \<Rightarrow> int \<Rightarrow> real \<Rightarrow> proc_outcome \<Rightarrow> test_result" where
  "handle_exception tfile timeout dur TimeoutExpired = timed_out_result tfile timeout dur"
| "handle_exception tfile timeout dur (FileNotFound m) = errored_result tfile m dur"
| "handle_exception tfile timeout dur (CalledProcessError m) = errored_result tfile m dur"
| "handle_exception tfile timeout dur (OtherError m) = errored_result tfile m dur"
| "handle_exception tfile timeout dur (Completed rc out err) =
     \<lparr>test_file = path_str tfile, success = (rc = 0), output_text = out, duration = dur,
      exit_code = rc, error_message = (if rc \<noteq> 0 then Some err else None)\<rparr>"

text \<open>
  The whole body is inside the \<^verbatim>\<open>try\<close>: the availability check (a missing runner raises
  \<^verbatim>\<open>RuntimeError\<close>, which the last handler turns into a result), in verbose mode the
  \<^verbatim>\<open>Running:\<close> line (a raising print is handled as any other exception, and the artifact
  is not run), then one
  \<^verbatim>\<open>subprocess.run(['bats', str(test_file)], timeout=timeout, cwd=test_file.parent)\<close>.
\<close>

definition run_single_test ::
  "'w system \<Rightarrow> string list \<Rightarrow> int \<Rightarrow> bool \<Rightarrow> 'w \<times> proc_call list \<Rightarrow> test_result \<times> ('w \<times> proc_call list)" where
  "run_single_test sys tfile timeout verbose st =
     (let start_time = time_now sys (fst st) in
      case check_bats_available sys st of
        (Inl e, st1) \<Rightarrow>
          (handle_exception tfile timeout (time_now sys (fst st1) - start_time) e, st1)
      | (Inr False, st1) \<Rightarrow>
          (errored_result tfile ''BATS is not installed or not available in PATH''
             (time_now sys (fst st1) - start_time), st1)
      | (Inr True, st1) \<Rightarrow>
          (case print_if sys verbose (Running [''bats'', path_str tfile]) st1 of
             (Some e, st2) \<Rightarrow>
               (errored_result tfile e (time_now sys (fst st2) - start_time), st2)
           | (None, st2) \<Rightarrow>
               (case subprocess_run sys
                       \<lparr>argv = [''bats'', path_str tfile], time_limit = Some timeout,
                        cwd = Some (butlast tfile)\<rparr> st2 of
                  (r, st3) \<Rightarrow>
                    (handle_exception tfile timeout (time_now sys (fst st3) - start_time) r,
                     st3))))"

subsection \<open>The execution modes\<close>

text \<open>
  \<^verbatim>\<open>
  for test_file in test_files:
      result = self._run_single_test(test_file, timeout, verbose)
      results.append(result)
      if verbose:
          self._print_test_result(result)
  return results
  \<close>
  The print is outside any \<^verbatim>\<open>try\<close>: when it raises, the exception leaves the function
  and no list is returned.
\<close>

fun run_sequential_tests ::
  "'w system \<Rightarrow> string list list \<Rightarrow> int \<Rightarrow> bool \<Rightarrow> 'w \<times> proc_call list
     \<Rightarrow> (py_error + test_result list) \<times> ('w \<times> proc_call list)" where
  "run_sequential_tests sys [] timeout verbose st = (Inr [], st)"
| "run_sequential_tests sys (tfile # rest) timeout verbose st =
     (case run_single_test sys tfile timeout verbose st of
        (result, st1) \<Rightarrow>
          (case print_result_if sys verbose result st1 of
             (Some e, st2) \<Rightarrow> (Inl (OtherException e), st2)
           | (None, st2) \<Rightarrow>
               (case run_sequential_tests sys rest timeout verbose st2 of
                  (Inl e, st3) \<Rightarrow> (Inl e, st3)
                | (Inr rs, st3) \<Rightarrow> (Inr (result # rs), st3))))"

text \<open>
  Parallel mode. Each submitted file gets a worker that calls
  \<^verbatim>\<open>_run_single_test(test_file, timeout, verbose)\<close>. What the environment decides for a
  worker is the state in which it runs (\<open>Inr\<close>: the world as this worker meets it, which is
  where the interleaving with the other workers shows), or that retrieving its outcome
  raises (\<open>Inl\<close>, with the exception's text); and the order in which \<^verbatim>\<open>as_completed\<close>
  yields the futures.
\<close>

definition worker_outcome ::
  "'w system \<Rightarrow> int \<Rightarrow> bool \<Rightarrow> string list \<times> (string + 'w \<times> proc_call list) \<Rightarrow> string + test_result" where
  "worker_outcome sys timeout verbose = (\<lambda>(tfile, worker).
     case worker of
       Inl e \<Rightarrow> Inl e
     | Inr wst \<Rightarrow> Inr (fst (run_single_test sys tfile timeout verbose wst)))"

text \<open>
  The collecting loop:
  \<^verbatim>\<open>
  for future in as_completed(future_to_test):
      test_file = future_to_test[future]
      try:
          result = future.result()
          results.append(result)
          if verbose:
              self._print_test_result(result)
      except Exception as e:
          results.append(TestResult(test_file=str(test_file), success=False, output="",
                                    duration=0.0, exit_code=1, error_message=str(e)))
  \<close>
  The handler also catches what the print raises, after the result was appended.
\<close>

fun collect_results ::
  "'w system \<Rightarrow> bool \<Rightarrow> ((string + test_result) \<times> string list) list \<Rightarrow> 'w \<times> proc_call list
     \<Rightarrow> test_result list \<times> ('w \<times> proc_call list)" where
  "collect_results sys verbose [] st = ([], st)"
| "collect_results sys verbose ((outcome, tfile) # rest) st =
     (case outcome of
        Inl e \<Rightarrow>
          (case collect_results sys verbose rest st of
             (rs, st') \<Rightarrow> (errored_result tfile e 0 # rs, st'))
      | Inr result \<Rightarrow>
          (case print_result_if sys verbose result st of
             (None, st1) \<Rightarrow>
               (case collect_results sys verbose rest st1 of
                  (rs, st') \<Rightarrow> (result # rs, st'))
           | (Some e, st1) \<Rightarrow>
               (case collect_results sys verbose rest st1 of
                  (rs, st') \<Rightarrow> (result # errored_result tfile e 0 # rs, st'))))"

text \<open>
  \<^verbatim>\<open>ThreadPoolExecutor(max_workers=max_parallel)\<close> raises \<^verbatim>\<open>ValueError\<close> unless
  \<^verbatim>\<open>max_parallel\<close> is positive. \<open>workers\<close> holds the environment's choice for each
  submitted file, in submission order.
\<close>

definition run_parallel_tests ::
  "'w system
     \<Rightarrow> (((string + test_result) \<times> string list) list \<Rightarrow> ((string + test_result) \<times> string list) list)
     \<Rightarrow> (string + 'w \<times> proc_call list) list
     \<Rightarrow> string list list \<Rightarrow> int \<Rightarrow> int \<Rightarrow> bool \<Rightarrow> 'w \<times> proc_call list
     \<Rightarrow> (py_error + test_result list) \<times> ('w \<times> proc_call list)" where
  "run_parallel_tests sys as_completed workers test_files max_parallel timeout verbose st =
     (if max_parallel \<le> 0 then (Inl (ValueError ''max_workers must be greater than 0''), st)
      else
        (let future_to_test =
               zip (map (worker_outcome sys timeout verbose) (zip test_files workers)) test_files
         in case collect_results sys verbose (as_completed future_to_test) st of
              (rs, st') \<Rightarrow> (Inr rs, st')))"

text \<open>
  \<^verbatim>\<open>run_tests\<close> in sequential mode (\<^verbatim>\<open>docker=False, parallel=False\<close>): discovery, the
  check that something was found, the run and the summary.
\<close>

definition run_tests_sequential ::
  "'w system \<Rightarrow> string list \<Rightarrow> string list list option \<Rightarrow> int \<Rightarrow> bool \<Rightarrow> 'w \<times> proc_call list
     \<Rightarrow> (py_error + execution_results) \<times> ('w \<times> proc_call list)" where
  "run_tests_sequential sys output_dir fs timeout verbose st =
     (let start_time = time_now sys (fst st);
          test_files = find_test_files output_dir fs
      in if test_files = []
         then (Inl (ValueError (''No test files found in '' @ path_str output_dir)), st)
         else (case run_sequential_tests sys test_files timeout verbose st of
                 (Inl e, st') \<Rightarrow> (Inl e, st')
               | (Inr rs, st') \<Rightarrow>
                   (Inr (calculate_summary (time_now sys (fst st') - start_time) rs), st')))"

text \<open>
  Systems for the concrete evaluations; the world is trivial. In the first every process
  returns the same thing and the console prints. In the second the runner is there and
  every run of an artifact times out. In the third the runner is there, every artifact
  passes, and the console can encode ASCII only: the \<^verbatim>\<open>Running:\<close> line prints, the
  status line raises.
\<close>

definition const_system :: "proc_outcome \<Rightarrow> unit system" where
  "const_system r =
     \<lparr>run_process = (\<lambda>c w. (r, w)), time_now = (\<lambda>w. 0), console_print = (\<lambda>l w. (None, w))\<rparr>"

definition hanging_system :: "unit system" where
  "hanging_system =
     \<lparr>run_process = (\<lambda>c w. if argv c = [''bats'', ''--version'']
                              then (Completed 0 ''Bats 1.10.0'' [], w)
                              else (TimeoutExpired, w)),
      time_now = (\<lambda>w. 0),
      console_print = (\<lambda>l w. (None, w))\<rparr>"

definition ascii_console :: "console_line \<Rightarrow> unit \<Rightarrow> string option \<times> unit" where
  "ascii_console l w =
     (case l of
        Running c \<Rightarrow> (None, w)
      | Status_line r \<Rightarrow> (Some ''ascii codec cannot encode character in position 0'', w)
      | Error_line m \<Rightarrow> (None, w))"

definition ascii_stdout_system :: "unit system" where
  "ascii_stdout_system =
     \<lparr>run_process = (\<lambda>c w. (Completed 0 ''ok'' [], w)), time_now = (\<lambda>w. 0),
      console_print = ascii_console\<rparr>"

definition hanging_ascii_system :: "unit system" where
  "hanging_ascii_system =
     \<lparr>run_process = (\<lambda>c w. if argv c = [''bats'', ''--version'']
                              then (Completed 0 ''Bats 1.10.0'' [], w)
                              else (TimeoutExpired, w)),
      time_now = (\<lambda>w. 0),
      console_print = ascii_console\<rparr>"

subsection \<open>The notions the statements about execution use\<close>

text \<open>The two process calls of one artifact.\<close>

definition version_check :: proc_call where
  "version_check = \<lparr>argv = [''bats'', ''--version''], time_limit = None, cwd = None\<rparr>"

definition bats_call :: "string list \<Rightarrow> int \<Rightarrow> proc_call" where
  "bats_call tfile timeout =
     \<lparr>argv = [''bats'', path_str tfile], time_limit = Some timeout, cwd = Some (butlast tfile)\<rparr>"

text \<open>
  What retrieving a future gives the collecting loop: the worker's result, or the
  synthetic failing result made from the exception.
\<close>

definition retrieved_result :: "(string + test_result) \<times> string list \<Rightarrow> test_result" where
  "retrieved_result = (\<lambda>(outcome, tfile).
     case outcome of
       Inr result \<Rightarrow> result
     | Inl e \<Rightarrow> \<lparr>test_file = path_str tfile, success = False, output_text = [],
                 duration = 0, exit_code = 1, error_message = Some e\<rparr>)"

text \<open>The futures of a batch, in submission order.\<close>

definition submitted_futures ::
  "'w system \<Rightarrow> int \<Rightarrow> bool \<Rightarrow> string list list \<Rightarrow> (string + 'w \<times> proc_call list) list
     \<Rightarrow> ((string + test_result) \<times> string list) list" where
  "submitted_futures sys timeout verbose test_files workers =
     zip (map (worker_outcome sys timeout verbose) (zip test_files workers)) test_files"

section \<open>Reference resolution (parser.py, \<^verbatim>\<open>OpenAPIParser.resolve_refs\<close>)\<close>

text \<open>\<^verbatim>\<open>s.split('/')\<close>: the pieces between the separators, empty pieces included.\<close>

fun split_on :: "char \<Rightarrow> string \<Rightarrow> string list" where
  "split_on sep [] = [[]]"
| "split_on sep (c # cs) =
     (if c = sep then [] # split_on sep cs
      else (case split_on sep cs of
              [] \<Rightarrow> [[c]]
            | p # ps \<Rightarrow> (c # p) # ps))"

text \<open>
  \<^verbatim>\<open>resolved[part]\<close> with a string key: a dict raises \<^verbatim>\<open>KeyError\<close> when the key is
  absent; every other value raises \<^verbatim>\<open>TypeError\<close>.
\<close>

fun py_getitem :: "py_value \<Rightarrow> string \<Rightarrow> py_error + py_value" where
  "py_getitem (PDict kvs) k = (case map_of kvs k of Some v \<Rightarrow> Inr v | None \<Rightarrow> Inl (KeyError k))"
| "py_getitem _ k = Inl TypeError"

text \<open>
  \<^verbatim>\<open>
  resolved = spec_root
  for part in path_parts:
      resolved = resolved[part]
  return resolved
  \<close>
\<close>

fun walk :: "py_value \<Rightarrow> string list \<Rightarrow> py_error + py_value" where
  "walk resolved [] = Inr resolved"
| "walk resolved (part # parts) =
     (case py_getitem resolved part of
        Inl e \<Rightarrow> Inl e
      | Inr v \<Rightarrow> walk v parts)"

text \<open>
  The inner function \<^verbatim>\<open>resolve_ref(obj, spec_root)\<close>. \<open>resolve_items\<close> is the dict
  comprehension over \<^verbatim>\<open>obj.items()\<close> and \<open>resolve_elems\<close> the list comprehension;
  both stop at the first exception. A dict with a \<^verbatim>\<open>$ref\<close> key is not descended into:
  an internal reference (\<^verbatim>\<open>ref_path.startswith('#')\<close>) is replaced by what
  \<^verbatim>\<open>ref_path[2:].split('/')\<close> leads to from the root, any other is returned as it is.
\<close>

function resolve_ref :: "py_value \<Rightarrow> py_value \<Rightarrow> py_error + py_value"
  and resolve_items :: "(string \<times> py_value) list \<Rightarrow> py_value \<Rightarrow> py_error + (string \<times> py_value) list"
  and resolve_elems :: "py_value list \<Rightarrow> py_value \<Rightarrow> py_error + py_value list"
where
  "resolve_ref (PDict kvs) spec_root =
     (case map_of kvs ''$ref'' of
        Some ref_path \<Rightarrow>
          (case ref_path of
             PStr r \<Rightarrow>
               if startswith r ''#''
               then walk spec_root (split_on CHR ''/'' (drop 2 r))
               else Inr (PDict kvs)
           | _ \<Rightarrow> Inl AttributeError)
      | None \<Rightarrow>
          (case resolve_items kvs spec_root of
             Inl e \<Rightarrow> Inl e
           | Inr kvs' \<Rightarrow> Inr (PDict kvs')))"
| "resolve_ref (PList xs) spec_root =
     (case resolve_elems xs spec_root of
        Inl e \<Rightarrow> Inl e
      | Inr xs' \<Rightarrow> Inr (PList xs'))"
| "resolve_ref PNone spec_root = Inr PNone"
| "resolve_ref (PBool b) spec_root = Inr (PBool b)"
| "resolve_ref (PInt i) spec_root = Inr (PInt i)"
| "resolve_ref (PFloat x) spec_root = Inr (PFloat x)"
| "resolve_ref (PStr s) spec_root = Inr (PStr s)"
| "resolve_items [] spec_root = Inr []"
| "resolve_items ((k, v) # rest) spec_root =
     (case resolve_ref v spec_root of
        Inl e \<Rightarrow> Inl e
      | Inr v' \<Rightarrow>
          (case resolve_items rest spec_root of
             Inl e \<Rightarrow> Inl e
           | Inr rest' \<Rightarrow> Inr ((k, v') # rest')))"
| "resolve_elems [] spec_root = Inr []"
| "resolve_elems (x # rest) spec_root =
     (case resolve_ref x spec_root of
        Inl e \<Rightarrow> Inl e
      | Inr x' \<Rightarrow>
          (case resolve_elems rest spec_root of
             Inl e \<Rightarrow> Inl e
           | Inr rest' \<Rightarrow> Inr (x' # rest')))"
  by pat_completeness auto
termination
  by (relation "measure (\<lambda>a. case a of
        Inl (v, r) \<Rightarrow> 2 * size v + 1
      | Inr (Inl (kvs, r)) \<Rightarrow> 2 * size (PDict kvs)
      | Inr (Inr (xs, r)) \<Rightarrow> 2 * size (PList xs))") auto

definition resolve_refs :: "py_value \<Rightarrow> py_error + py_value" where
  "resolve_refs spec = resolve_ref spec spec"

subsection \<open>The notions the statements about resolution use\<close>

text \<open>
  The values the traversal of a document visits: the document, the values of a visited
  dict that has no \<^verbatim>\<open>$ref\<close> key, the elements of a visited list.
\<close>

inductive reached :: "py_value \<Rightarrow> py_value \<Rightarrow> bool" for doc :: py_value where
  reached_root: "reached doc doc"
| reached_item: "reached doc (PDict kvs) \<Longrightarrow> map_of kvs ''$ref'' = None \<Longrightarrow> (k, v) \<in> set kvs \<Longrightarrow> reached doc v"
| reached_elem: "reached doc (PList xs) \<Longrightarrow> x \<in> set xs \<Longrightarrow> reached doc x"

code_pred reached .

definition petstore_doc :: py_value where
  "petstore_doc =
     PDict [(''paths'', PDict [(''/pets'', PDict [(''$ref'', PStr ''#/components/schemas/Missing'')])]),
            (''components'', PDict [(''schemas'', PDict [(''Pet'', PDict [(''type'', PStr ''object'')])])])]"

definition library_doc :: py_value where
  "library_doc =
     PDict [(''paths'',
             PDict [(''/books'', PList [PDict [(''$ref'', PStr ''#/components/schemas/Book'')],
                                       PDict [(''$ref'', PStr ''common.yaml#/Error'')],
                                       PInt 7])]),
            (''components'', PDict [(''schemas'', PDict [(''Book'', PDict [(''type'', PStr ''object'')])])])]"

section \<open>Test-data synthesis (templates.py, \<^verbatim>\<open>TemplateEngine._generate_test_data\<close>)\<close>

text \<open>
  \<^verbatim>\<open>str.lower()\<close> and \<^verbatim>\<open>str.title()\<close> on ASCII letters; other bytes are left alone.
  The code compares \<^verbatim>\<open>field_name.lower()\<close> with ASCII words only and titles a name only
  when its lower case is \<^verbatim>\<open>name\<close> or \<^verbatim>\<open>title\<close>. \<^verbatim>\<open>title\<close> upper-cases a letter
  that follows a non-letter and lower-cases a letter that follows a letter.
\<close>

definition ascii_lowercase :: string where
  "ascii_lowercase = ''abcdefghijklmnopqrstuvwxyz''"

definition ascii_uppercase :: string where
  "ascii_uppercase = ''ABCDEFGHIJKLMNOPQRSTUVWXYZ''"

definition to_lower :: "char \<Rightarrow> char" where
  "to_lower c = (case map_of (zip ascii_uppercase ascii_lowercase) c of Some l \<Rightarrow> l | None \<Rightarrow> c)"

definition to_upper :: "char \<Rightarrow> char" where
  "to_upper c = (case map_of (zip ascii_lowercase ascii_uppercase) c of Some u \<Rightarrow> u | None \<Rightarrow> c)"

definition lower :: "string \<Rightarrow> string" where
  "lower s = map to_lower s"

fun title_from :: "bool \<Rightarrow> string \<Rightarrow> string" where
  "title_from prev [] = []"
| "title_from prev (c # cs) =
     (if c \<in> set ascii_lowercase then (if prev then c else to_upper c) # title_from True cs
      else if c \<in> set ascii_uppercase then (if prev then to_lower c else c) # title_from True cs
      else c # title_from False cs)"

definition title :: "string \<Rightarrow> string" where
  "title s = title_from False s"

text \<open>\<^verbatim>\<open>d[k] = v\<close>: an existing key keeps its place, a new key goes last.\<close>

fun dict_set :: "(string \<times> py_value) list \<Rightarrow> string \<Rightarrow> py_value \<Rightarrow> (string \<times> py_value) list" where
  "dict_set [] k v = [(k, v)]"
| "dict_set ((k', v') # rest) k v =
     (if k' = k then (k, v) # rest else (k', v') # dict_set rest k v)"

text \<open>
  \<open>generate_fields\<close> is the loop over \<^verbatim>\<open>properties.items()\<close>, with \<^verbatim>\<open>test_data\<close>
  as its accumulator. \<^verbatim>\<open>schema.get\<close>, \<^verbatim>\<open>properties.items\<close> and
  \<^verbatim>\<open>field_schema.get\<close> raise \<^verbatim>\<open>AttributeError\<close> on a value that is not a dict. A
  property whose type is none of the six is skipped.
\<close>

lemma map_of_size: "map_of kvs k = Some v \<Longrightarrow> size v < size (PDict kvs)"
  by (induction kvs) (auto split: if_splits)

lemma dict_get_size: "kvs \<noteq> [] \<Longrightarrow> size (dict_get kvs k (PDict [])) < size (PDict kvs)"
proof (cases "map_of kvs k")
  case None
  assume "kvs \<noteq> []"
  then show ?thesis using None by (cases kvs) (simp_all add: dict_get_def)
next
  case (Some v)
  then show ?thesis using map_of_size [OF Some] by (simp add: dict_get_def)
qed

function generate_test_data :: "py_value \<Rightarrow> py_error + py_value"
  and generate_fields ::
    "(string \<times> py_value) list \<Rightarrow> (string \<times> py_value) list \<Rightarrow> py_error + (string \<times> py_value) list"
where
  "generate_test_data schema =
     (if \<not> truthy schema then Inr (PDict [])
      else (case schema of
              PDict kvs \<Rightarrow>
                (case dict_get kvs ''properties'' (PDict []) of
                   PDict properties \<Rightarrow>
                     (case generate_fields properties [] of
                        Inl e \<Rightarrow> Inl e
                      | Inr test_data \<Rightarrow> Inr (PDict test_data))
                 | _ \<Rightarrow> Inl AttributeError)
            | _ \<Rightarrow> Inl AttributeError))"
| "generate_fields [] test_data = Inr test_data"
| "generate_fields ((field_name, field_schema) # rest) test_data =
     (case field_schema of
        PDict fs \<Rightarrow>
          (let field_type = dict_get fs ''type'' (PStr ''string'') in
           if field_type = PStr ''string'' then
             (if lower field_name \<in> set [''email'', ''e-mail''] then
                generate_fields rest (dict_set test_data field_name (PStr ''test@example.com''))
              else if lower field_name \<in> set [''name'', ''title''] then
                generate_fields rest
                  (dict_set test_data field_name (PStr (''Test '' @ title field_name)))
              else if lower field_name \<in> set [''id'', ''uuid''] then
                generate_fields rest (dict_set test_data field_name (PStr ''test-id-123''))
              else
                generate_fields rest (dict_set test_data field_name (PStr (''test_'' @ field_name))))
           else if field_type = PStr ''integer'' then
             generate_fields rest (dict_set test_data field_name (PInt 42))
           else if field_type = PStr ''number'' then
             generate_fields rest (dict_set test_data field_name (PFloat 42))
           else if field_type = PStr ''boolean'' then
             generate_fields rest (dict_set test_data field_name (PBool True))
           else if field_type = PStr ''array'' then
             generate_fields rest
               (dict_set test_data field_name (PList [PStr ''item1'', PStr ''item2'']))
           else if field_type = PStr ''object'' then
             (case generate_test_data field_schema of
                Inl e \<Rightarrow> Inl e
              | Inr v \<Rightarrow> generate_fields rest (dict_set test_data field_name v))
           else generate_fields rest test_data)
      | _ \<Rightarrow> Inl AttributeError)"
  by pat_completeness auto
termination
proof (relation "measure (\<lambda>a. case a of
        Inl v \<Rightarrow> size v
      | Inr (ps, acc) \<Rightarrow> size (PDict ps))", goal_cases)
  case 1
  show ?case by simp
next
  case (2 schema kvs properties)
  then show ?case using dict_get_size [of kvs "''properties''"] by auto
qed auto

declare generate_test_data.simps [simp del]

subsection \<open>Synthesis as the specification words it\<close>

text \<open>
  The literal a string property gets from its name, the value a property gets from its
  type (\<open>None\<close>: the property is left out), and the properties taken one by one.
\<close>

definition string_default :: "string \<Rightarrow> string" where
  "string_default f =
     (if lower f \<in> set [''email'', ''e-mail''] then ''test@example.com''
      else if lower f \<in> set [''name'', ''title''] then ''Test '' @ title f
      else if lower f \<in> set [''id'', ''uuid''] then ''test-id-123''
      else ''test_'' @ f)"

definition synth_property :: "string \<Rightarrow> py_value \<Rightarrow> py_error + py_value option" where
  "synth_property f fs =
     (case fs of
        PDict d \<Rightarrow>
          (let ty = dict_get d ''type'' (PStr ''string'') in
           if ty = PStr ''string'' then Inr (Some (PStr (string_default f)))
           else if ty = PStr ''integer'' then Inr (Some (PInt 42))
           else if ty = PStr ''number'' then Inr (Some (PFloat 42))
           else if ty = PStr ''boolean'' then Inr (Some (PBool True))
           else if ty = PStr ''array'' then Inr (Some (PList [PStr ''item1'', PStr ''item2'']))
           else if ty = PStr ''object'' then
             (case generate_test_data fs of Inl e \<Rightarrow> Inl e | Inr v \<Rightarrow> Inr (Some v))
           else Inr None)
      | _ \<Rightarrow> Inl AttributeError)"

fun synth_properties :: "(string \<times> py_value) list \<Rightarrow> py_error + (string \<times> py_value) list" where
  "synth_properties [] = Inr []"
| "synth_properties ((f, fs) # rest) =
     (case synth_property f fs of
        Inl e \<Rightarrow> Inl e
      | Inr vo \<Rightarrow>
          (case synth_properties rest of
             Inl e \<Rightarrow> Inl e
           | Inr es \<Rightarrow> Inr ((case vo of Some v \<Rightarrow> [(f, v)] | None \<Rightarrow> []) @ es)))"

definition pet_properties :: "(string \<times> py_value) list" where
  "pet_properties =
     [(''email'', PDict [(''type'', PStr ''string'')]),
      (''Name'', PDict []),
      (''id'', PDict [(''type'', PStr ''string'')]),
      (''nick'', PDict [(''type'', PStr ''string'')]),
      (''age'', PDict [(''type'', PStr ''integer'')]),
      (''score'', PDict [(''type'', PStr ''number'')]),
      (''active'', PDict [(''type'', PStr ''boolean'')]),
      (''tags'', PDict [(''type'', PStr ''array'')]),
      (''owner'', PDict [(''type'', PStr ''object''),
                         (''properties'', PDict [(''uuid'', PDict [(''type'', PStr ''string'')])])]),
      (''misc'', PDict [(''type'', PStr ''null'')])]"


section \<open>Fetching from a repository (parser.py, \<^verbatim>\<open>OpenAPIParser._fetch_from_git\<close>)\<close>

text \<open>
  The repository descriptor, with the types the configuration schema gives its keys
  (\<^verbatim>\<open>path\<close> is \<open>spec_path\<close> here). \<^verbatim>\<open>urlparse\<close>, \<^verbatim>\<open>git.Repo.clone_from\<close> and
  the decoders are the environment's: a clone either gives the files of the checkout
  (content by relative path) or raises \<^verbatim>\<open>GitCommandError\<close>, which carries its text
  \<^verbatim>\<open>str(e)\<close>. The temporary directory is not modelled.
\<close>

record git_config =
  repo :: string
  spec_path :: string
  branch :: "string option"
  token :: "string option"

record parsed_url =
  scheme :: string
  netloc :: string
  url_path :: string

datatype clone_outcome =
    Cloned "string \<Rightarrow> string option"
  | GitCommandError string

record git_env =
  urlparse :: "string \<Rightarrow> parsed_url"
  clone_from :: "string \<Rightarrow> string \<Rightarrow> clone_outcome"
  json_loads :: "string \<Rightarrow> py_value option"
  yaml_safe_load :: "string \<Rightarrow> py_error + py_value"

text \<open>
  \<^verbatim>\<open>
  if token:
      parsed_url = urlparse(repo_url)
      repo_url = parsed_url.scheme + "://" + token + "@" + parsed_url.netloc + parsed_url.path
  \<close>
  (the source writes the concatenation as one f-string).
\<close>

definition clone_url :: "git_env \<Rightarrow> git_config \<Rightarrow> string" where
  "clone_url env cfg =
     (case token cfg of
        Some t \<Rightarrow>
          if t \<noteq> [] then
            (let parsed_url = urlparse env (repo cfg)
             in scheme parsed_url @ ''://'' @ t @ ''@'' @ netloc parsed_url @ url_path parsed_url)
          else repo cfg
      | None \<Rightarrow> repo cfg)"

text \<open>
  \<^verbatim>\<open>
  try:
      repo = git.Repo.clone_from(repo_url, temp_dir, branch=branch)
      spec_file = Path(temp_dir) / spec_path
      if not spec_file.exists():
          raise FileNotFoundError(f"OpenAPI spec file not found in repository: {spec_path}")
      ... json.loads(content), on JSONDecodeError yaml.safe_load(content)
  except git.GitCommandError as e:
      raise ValueError(f"Failed to clone Git repository: {e}")
  \<close>
\<close>

definition fetch_from_git :: "git_env \<Rightarrow> git_config \<Rightarrow> py_error + py_value" where
  "fetch_from_git env cfg =
     (case clone_from env (clone_url env cfg)
             (case branch cfg of Some b \<Rightarrow> b | None \<Rightarrow> ''main'') of
        GitCommandError e \<Rightarrow> Inl (ValueError (''Failed to clone Git repository: '' @ e))
      | Cloned files \<Rightarrow>
          (case files (spec_path cfg) of
             None \<Rightarrow> Inl (FileNotFoundError
                         (''OpenAPI spec file not found in repository: '' @ spec_path cfg))
           | Some content \<Rightarrow>
               (case json_loads env content of
                  Some doc \<Rightarrow> Inr doc
                | None \<Rightarrow> yaml_safe_load env content)))"

text \<open>
  An environment for the concrete evaluations: the clone fails, and the exception's text
  shows the command line, as GitPython's \<^verbatim>\<open>GitCommandError\<close> does.
\<close>

definition github_env :: git_env where
  "github_env =
     \<lparr>urlparse = (\<lambda>u. \<lparr>scheme = ''https'', netloc = ''github.com'', url_path = ''/acme/api.git''\<rparr>),
      clone_from = (\<lambda>url br. GitCommandError
         (''Cmd git failed due to: exit code(128) cmdline: git clone --branch='' @ br @ '' '' @ url)),
      json_loads = (\<lambda>c. None),
      yaml_safe_load = (\<lambda>c. Inr PNone)\<rparr>"

definition private_repo :: git_config where
  "private_repo = \<lparr>repo = ''https://github.com/acme/api.git'', spec_path = ''openapi.yaml'',
                    branch = None, token = Some ''ghp_SECRET''\<rparr>"


text \<open>An endpoint with the given path and response map, for concrete evaluations.\<close>

definition example_endpoint :: "string \<Rightarrow> (string \<times> (string \<times> py_value) list) list \<Rightarrow> endpoint" where
  "example_endpoint p rs =
     \<lparr>path = p, http_method = ''GET'', operation_id = None, summary = None, description = None,
      parameters = [], request_body = None, responses = rs, tags = [], security = []\<rparr>"

definition example_result :: "string \<Rightarrow> bool \<Rightarrow> test_result" where
  "example_result f ok =
     \<lparr>test_file = f, success = ok, output_text = [], duration = 0,
      exit_code = (if ok then 0 else 1), error_message = None\<rparr>"

section \<open>Properties\<close>

lemma sum_list_ones: "(\<Sum>r \<leftarrow> xs. (1::int)) = int (length xs)"
  by (induction xs) simp_all

text \<open>
  C4. With a non-empty inclusion list exactly the endpoints whose path is in it are kept
  and the exclusion list is ignored; with an empty inclusion list exactly the endpoints
  whose path is not in the exclusion list are kept.
\<close>

theorem filter_endpoints_precedence:
  "filter_endpoints endpoints exclude include_only =
     (if include_only \<noteq> [] then filter (\<lambda>ep. path ep \<in> set include_only) endpoints
      else filter (\<lambda>ep. path ep \<notin> set exclude) endpoints)"
  by (simp add: filter_endpoints_def)

theorem filter_endpoints_precedence_witness:
  "filter_endpoints [example_endpoint ''/a'' [], example_endpoint ''/b'' []] [''/b''] [''/b'']
     = [example_endpoint ''/b'' []] \<and>
   filter_endpoints [example_endpoint ''/a'' [], example_endpoint ''/b'' []] [''/a''] []
     = [example_endpoint ''/b'' []]"
  using filter_endpoints_precedence
    [of "[example_endpoint ''/a'' [], example_endpoint ''/b'' []]" "[''/b'']" "[''/b'']"]
    filter_endpoints_precedence
    [of "[example_endpoint ''/a'' [], example_endpoint ''/b'' []]" "[''/a'']" "[]"]
  by (simp add: example_endpoint_def)

text \<open>
  C9. The summary of a list of results has total = its length, passed = the number of
  results with success true, failed = total - passed, and the overall flag true exactly
  when failed is 0.
\<close>

theorem calculate_summary_counts:
  "total_tests (calculate_summary d rs) = int (length rs) \<and>
   passed_tests (calculate_summary d rs) = int (length (filter success rs)) \<and>
   failed_tests (calculate_summary d rs) =
     total_tests (calculate_summary d rs) - passed_tests (calculate_summary d rs) \<and>
   overall_success (calculate_summary d rs) = (failed_tests (calculate_summary d rs) = 0) \<and>
   results (calculate_summary d rs) = rs"
  by (simp add: calculate_summary_def Let_def sum_list_ones)

theorem calculate_summary_counts_witness:
  "total_tests (calculate_summary 0 [example_result ''a'' True, example_result ''b'' True,
      example_result ''c'' False]) = 3 \<and>
   passed_tests (calculate_summary 0 [example_result ''a'' True, example_result ''b'' True,
      example_result ''c'' False]) = 2 \<and>
   failed_tests (calculate_summary 0 [example_result ''a'' True, example_result ''b'' True,
      example_result ''c'' False]) = 1 \<and>
   overall_success (calculate_summary 0 [example_result ''a'' True, example_result ''b'' True,
      example_result ''c'' False]) = False"
  using calculate_summary_counts
    [of 0 "[example_result ''a'' True, example_result ''b'' True, example_result ''c'' False]"]
  by (simp add: example_result_def)


subsection \<open>Test-case derivation\<close>

lemma digit_not_space: "is_digit c \<Longrightarrow> \<not> is_space c"
  by (auto simp: is_digit_def is_space_def)

lemma dropWhile_space_digits: "list_all is_digit s \<Longrightarrow> dropWhile is_space s = s"
  by (cases s) (auto simp: digit_not_space)

lemma strip_digits: "list_all is_digit s \<Longrightarrow> strip s = s"
  by (simp add: strip_def dropWhile_space_digits)

lemma digits_ok_all: "list_all is_digit s \<Longrightarrow> digits_ok p s = (p \<or> s \<noteq> [])"
  by (induction s arbitrary: p) auto

lemma filter_digits: "list_all is_digit s \<Longrightarrow> filter is_digit s = s"
  by (induction s) auto


lemma py_int_decimal: "all_digits s \<Longrightarrow> py_int s = Inr (int (decimal_value s))"
proof -
  assume a: "all_digits s"
  then have ne: "s \<noteq> []" and ds: "list_all is_digit s"
    by (auto simp: all_digits_def)
  from ne ds have d: "is_digit (hd s)" by (cases s) auto
  have sg: "hd s \<noteq> CHR ''-''" "hd s \<noteq> CHR ''+''"
    using d by (auto simp: is_digit_def)
  have st: "strip s = s" using ds by (rule strip_digits)
  have ok: "digits_ok False s" using ds ne by (simp add: digits_ok_all)
  have fl: "filter is_digit s = s" using ds by (rule filter_digits)
  show ?thesis
    unfolding py_int_def Let_def st using sg ok fl ne by simp
qed


lemma response_schema_of_shaped:
  "content_shaped rd \<Longrightarrow> response_schema_of rd = Inr (declared_schema rd)"
proof (cases "map_of rd ''content''")
  case None
  then show ?thesis
    by (simp add: response_schema_of_def declared_schema_def dict_get_def)
next
  case (Some c)
  assume sh: "content_shaped rd"
  then obtain kvs where c: "c = PDict kvs"
    using Some by (cases c) (simp_all add: content_shaped_def)
  show ?thesis
  proof (cases "map_of kvs ''application/json''")
    case None
    then show ?thesis using Some c
      by (simp add: response_schema_of_def declared_schema_def dict_get_def)
  next
    case (Some m)
    then obtain ms where "m = PDict ms"
      using sh \<open>map_of rd ''content'' = Some c\<close> c by (cases m) (simp_all add: content_shaped_def)
    then show ?thesis using Some \<open>map_of rd ''content'' = Some c\<close> c
      by (simp add: response_schema_of_def declared_schema_def dict_get_def)
  qed
qed

lemma py_get_error: "py_get v k d = Inl e \<Longrightarrow> e = AttributeError"
  by (cases v) simp_all

lemma response_schema_of_error: "response_schema_of rd = Inl e \<Longrightarrow> e = AttributeError"
  by (auto simp: response_schema_of_def split: sum.splits dest: py_get_error)

lemma error_cases_no_invalid:
  "status_keys_decimal rs \<Longrightarrow> error_cases ep rs \<noteq> Inl (InvalidLiteral s)"
  by (induction rs)
     (auto simp: status_keys_decimal_def is_error_key_def py_int_decimal
           split: sum.splits if_splits dest: response_schema_of_error)

lemma error_cases_total:
  "status_keys_decimal rs \<Longrightarrow> status_content_shaped rs \<Longrightarrow>
   error_cases ep rs = Inr (map (error_case_for ep) (filter (\<lambda>(k, rd). is_error_key k) rs))"
  by (induction rs)
     (auto simp: status_keys_decimal_def status_content_shaped_def is_error_key_def
        py_int_decimal error_case_for_def response_schema_of_shaped split: if_splits)


lemma find_success_first: "find_success rs = first_success rs"
  by (induction rs) (auto simp: is_success_key_def first_success_def)

lemma first_success_key: "first_success rs = Some (k, rd) \<Longrightarrow> is_success_key k \<and> (k, rd) \<in> set rs"
  unfolding first_success_def by (induction rs) (auto split: if_splits)

lemma keys_decimal_member:
  "status_keys_decimal rs \<Longrightarrow> (k, rd) \<in> set rs \<Longrightarrow> is_success_key k \<or> is_error_key k \<Longrightarrow> all_digits k"
  by (auto simp: status_keys_decimal_def list_all_iff)

lemma success_cases_total:
  assumes "status_keys_decimal (responses ep)"
    and "status_content_shaped (responses ep)"
  shows "success_cases str_of ep =
     Inr (case first_success (responses ep) of
            None \<Rightarrow> []
          | Some (k, rd) \<Rightarrow> if rd = [] then [] else [success_case_for str_of ep (k, rd)])"
proof (cases "first_success (responses ep)")
  case None
  then show ?thesis by (simp add: success_cases_def find_success_first)
next
  case (Some e)
  obtain k rd where e: "e = (k, rd)" by (cases e)
  have m: "is_success_key k" "(k, rd) \<in> set (responses ep)"
    using first_success_key Some e by auto
  have d: "all_digits k" using keys_decimal_member assms(1) m by blast
  have c: "content_shaped rd"
    using assms(2) m by (auto simp: status_content_shaped_def list_all_iff)
  show ?thesis using Some e
    by (simp add: success_cases_def find_success_first py_int_decimal [OF d]
        response_schema_of_shaped [OF c] success_case_for_def)
qed

lemma success_cases_no_invalid:
  assumes "status_keys_decimal (responses ep)"
  shows "success_cases str_of ep \<noteq> Inl (InvalidLiteral s)"
proof (cases "first_success (responses ep)")
  case None
  then show ?thesis by (simp add: success_cases_def find_success_first)
next
  case (Some e)
  obtain k rd where e: "e = (k, rd)" by (cases e)
  have m: "is_success_key k" "(k, rd) \<in> set (responses ep)"
    using first_success_key Some e by auto
  have d: "all_digits k" using keys_decimal_member assms(1) m by blast
  show ?thesis using Some e
    by (auto simp: success_cases_def find_success_first py_int_decimal [OF d]
        split: sum.splits dest: response_schema_of_error)
qed

lemma success_cases_status:
  assumes "status_keys_decimal (responses ep)" and "success_cases str_of ep = Inr cs"
  shows "map expected_status cs =
     map (\<lambda>(k, rd). int (decimal_value k))
       (case first_success (responses ep) of
          None \<Rightarrow> []
        | Some (k, rd) \<Rightarrow> if rd = [] then [] else [(k, rd)])"
proof (cases "first_success (responses ep)")
  case None
  then show ?thesis using assms(2) by (simp add: success_cases_def find_success_first)
next
  case (Some e)
  obtain k rd where e: "e = (k, rd)" by (cases e)
  have m: "is_success_key k" "(k, rd) \<in> set (responses ep)"
    using first_success_key Some e by auto
  have d: "all_digits k" using keys_decimal_member assms(1) m by blast
  show ?thesis using Some e assms(2)
    by (auto simp: success_cases_def find_success_first py_int_decimal [OF d]
        split: sum.splits if_splits)
qed

lemma error_cases_status:
  "status_keys_decimal rs \<Longrightarrow> error_cases ep rs = Inr cs \<Longrightarrow>
   map expected_status cs = map (\<lambda>(k, rd). int (decimal_value k)) (filter (\<lambda>(k, rd). is_error_key k) rs)"
  by (induction rs arbitrary: cs)
     (auto simp: status_keys_decimal_def is_error_key_def py_int_decimal
           split: sum.splits if_splits)

text \<open>
  C1, as the code has it. For an endpoint whose keys starting with 2, 4 or 5 are decimal
  digit strings, whose response definitions under these keys have a dict-shaped content,
  and whose first 2xx response definition is not empty, derivation returns: one success case bound to the first
  key that starts with "2" in iteration order (none when there is no such key), then one
  error case for each entry whose key starts with "4" or "5", in iteration order, and
  nothing else.
\<close>

theorem get_endpoint_test_cases_derivation:
  assumes "status_keys_decimal (responses ep)"
    and "status_content_shaped (responses ep)"
    and "\<forall>k. first_success (responses ep) \<noteq> Some (k, [])"
  shows "get_endpoint_test_cases str_of ep =
     Inr ((case first_success (responses ep) of
             None \<Rightarrow> []
           | Some (k, rd) \<Rightarrow> [success_case_for str_of ep (k, rd)])
          @ map (error_case_for ep) (filter (\<lambda>(k, rd). is_error_key k) (responses ep)))"
  using assms(3)
  by (auto simp: get_endpoint_test_cases_def success_cases_total [OF assms(1,2)]
      error_cases_total [OF assms(1,2)] split: option.splits)

theorem get_endpoint_test_cases_derivation_witness:
  "status_keys_decimal [(''200'', [(''description'', PStr ''OK'')]),
      (''404'', [(''description'', PStr ''Not found'')]), (''default'', [])] \<and>
   get_endpoint_test_cases str_of_text
     (example_endpoint ''/pets''
        [(''200'', [(''description'', PStr ''OK'')]),
         (''404'', [(''description'', PStr ''Not found'')]), (''default'', [])])
   = Inr [\<lparr>tc_name = ''GET /pets returns OK'', tc_method = ''GET'', tc_path = ''/pets'',
           expected_status = 200, response_schema = PNone, test_type = ''success''\<rparr>,
          \<lparr>tc_name = ''GET /pets returns 404'', tc_method = ''GET'', tc_path = ''/pets'',
           expected_status = 404, response_schema = PNone, test_type = ''error''\<rparr>]"
proof -
  let ?rs = "[(''200'', [(''description'', PStr ''OK'')]),
      (''404'', [(''description'', PStr ''Not found'')]), (''default'', [])]"
  let ?ep = "example_endpoint ''/pets'' ?rs"
  have r: "responses ?ep = ?rs" by (simp add: example_endpoint_def)
  have h1: "status_keys_decimal (responses ?ep)"
    unfolding r
    by (simp add: status_keys_decimal_def is_success_key_def is_error_key_def startswith_def
        all_digits_def is_digit_def)
  have h2: "status_content_shaped (responses ?ep)"
    unfolding r
    by (simp add: status_content_shaped_def content_shaped_def is_success_key_def
        is_error_key_def startswith_def)
  have h3: "\<forall>k. first_success (responses ?ep) \<noteq> Some (k, [])"
    unfolding r by (simp add: first_success_def is_success_key_def startswith_def)
  show ?thesis
    using h1 get_endpoint_test_cases_derivation [OF h1 h2 h3, of str_of_text]
    unfolding r
    by (simp add: first_success_def is_success_key_def is_error_key_def startswith_def
        success_case_for_def error_case_for_def example_endpoint_def str_of_text_def
        dict_get_def declared_schema_def decimal_value_def digit_val_def)
qed

text \<open>
  C1 as stated fails: a key such as "2XX" starts with "2" and derivation raises instead of
  producing a success case; an empty response definition under the first 2xx key is falsy
  and derivation silently produces no success case; a content that is not a dict makes
  derivation raise.
\<close>

theorem get_endpoint_test_cases_counterexample:
  "get_endpoint_test_cases str_of_text
     (example_endpoint ''/p'' [(''2XX'', [(''description'', PStr ''ok'')])])
     = Inl (InvalidLiteral ''2XX'') \<and>
   get_endpoint_test_cases str_of_text (example_endpoint ''/p'' [(''200'', [])]) = Inr [] \<and>
   get_endpoint_test_cases str_of_text
     (example_endpoint ''/p'' [(''200'', [(''content'', PStr ''text'')])])
     = Inl AttributeError"
  by (simp add: get_endpoint_test_cases_def success_cases_def example_endpoint_def
      startswith_def py_int_def strip_def is_space_def is_digit_def decimal_value_def
      digit_val_def response_schema_of_def dict_get_def)

text \<open>
  C10. When every key that starts with 2, 4 or 5 is a string of decimal digits, the
  integer conversion never fails and every derived case's expected status is the numeric
  value of its key; for the key "2XX" the conversion fails and derivation has no result.
\<close>

theorem status_conversion_on_decimal_keys:
  "(status_keys_decimal (responses ep) \<longrightarrow>
      (\<forall>s. get_endpoint_test_cases str_of ep \<noteq> Inl (InvalidLiteral s)) \<and>
      (\<forall>cs. get_endpoint_test_cases str_of ep = Inr cs \<longrightarrow>
         map expected_status cs =
           map (\<lambda>(k, rd). int (decimal_value k)) (converted_entries (responses ep)))) \<and>
   get_endpoint_test_cases str_of
     (example_endpoint ''/p'' [(''2XX'', [(''description'', PStr ''ok'')])])
     = Inl (InvalidLiteral ''2XX'')"
proof (intro conjI impI allI)
  fix s assume k: "status_keys_decimal (responses ep)"
  show "get_endpoint_test_cases str_of ep \<noteq> Inl (InvalidLiteral s)"
    using success_cases_no_invalid [OF k, of str_of s] error_cases_no_invalid [OF k, of ep s]
    by (auto simp: get_endpoint_test_cases_def split: sum.splits)
next
  fix cs assume k: "status_keys_decimal (responses ep)"
    and r: "get_endpoint_test_cases str_of ep = Inr cs"
  from r obtain a b where a: "success_cases str_of ep = Inr a"
    and b: "error_cases ep (responses ep) = Inr b" and cs: "cs = a @ b"
    by (auto simp: get_endpoint_test_cases_def split: sum.splits)
  show "map expected_status cs =
      map (\<lambda>(k, rd). int (decimal_value k)) (converted_entries (responses ep))"
    using success_cases_status [OF k a] error_cases_status [OF k b] cs
    by (simp add: converted_entries_def)
next
  show "get_endpoint_test_cases str_of
     (example_endpoint ''/p'' [(''2XX'', [(''description'', PStr ''ok'')])])
     = Inl (InvalidLiteral ''2XX'')"
    by (simp add: get_endpoint_test_cases_def success_cases_def example_endpoint_def
        startswith_def py_int_def strip_def is_space_def is_digit_def)
qed

theorem status_conversion_on_decimal_keys_witness:
  "status_keys_decimal [(''201'', [(''description'', PStr ''Created'')]), (''500'', [])] \<and>
   get_endpoint_test_cases str_of_text
     (example_endpoint ''/pets'' [(''201'', [(''description'', PStr ''Created'')]), (''500'', [])])
     \<noteq> Inl (InvalidLiteral ''201'') \<and>
   map expected_status
     [\<lparr>tc_name = ''GET /pets returns Created'', tc_method = ''GET'', tc_path = ''/pets'',
       expected_status = 201, response_schema = PNone, test_type = ''success''\<rparr>,
      \<lparr>tc_name = ''GET /pets returns 500'', tc_method = ''GET'', tc_path = ''/pets'',
       expected_status = 500, response_schema = PNone, test_type = ''error''\<rparr>]
   = map (\<lambda>(k, rd). int (decimal_value k))
       (converted_entries [(''201'', [(''description'', PStr ''Created'')]), (''500'', [])])"
proof -
  let ?rs = "[(''201'', [(''description'', PStr ''Created'')]), (''500'', [])]"
  let ?ep = "example_endpoint ''/pets'' ?rs"
  have r: "responses ?ep = ?rs" by (simp add: example_endpoint_def)
  have h: "status_keys_decimal ?rs"
    by (simp add: status_keys_decimal_def is_success_key_def is_error_key_def startswith_def
        all_digits_def is_digit_def)
  have g: "get_endpoint_test_cases str_of_text ?ep =
     Inr [\<lparr>tc_name = ''GET /pets returns Created'', tc_method = ''GET'', tc_path = ''/pets'',
           expected_status = 201, response_schema = PNone, test_type = ''success''\<rparr>,
          \<lparr>tc_name = ''GET /pets returns 500'', tc_method = ''GET'', tc_path = ''/pets'',
           expected_status = 500, response_schema = PNone, test_type = ''error''\<rparr>]"
    by (simp add: get_endpoint_test_cases_def success_cases_def example_endpoint_def
        startswith_def py_int_def strip_def is_space_def is_digit_def str_of_text_def
        dict_get_def response_schema_of_def decimal_value_def digit_val_def)
  show ?thesis
    using h g status_conversion_on_decimal_keys [of ?ep str_of_text]
    unfolding r by simp
qed

subsection \<open>The execution engine\<close>

lemma handle_exception_file: "test_file (handle_exception f t d r) = path_str f"
  by (cases r) (simp_all add: timed_out_result_def errored_result_def)

lemma run_single_test_file:
  "test_file (fst (run_single_test sys f t v st)) = path_str f"
  by (auto simp: run_single_test_def Let_def errored_result_def handle_exception_file
      split: prod.splits sum.splits bool.splits option.splits)

lemma run_sequential_tests_quiet:
  "\<exists>rs st'. run_sequential_tests sys fs t False st = (Inr rs, st') \<and>
     map test_file rs = map path_str fs"
proof (induction fs arbitrary: st)
  case Nil
  show ?case by simp
next
  case (Cons f fs)
  obtain r st1 where r: "run_single_test sys f t False st = (r, st1)"
    by (cases "run_single_test sys f t False st")
  obtain rs st2 where rs: "run_sequential_tests sys fs t False st1 = (Inr rs, st2)"
    and fs: "map test_file rs = map path_str fs"
    using Cons.IH [of st1] by blast
  have "test_file r = path_str f" using run_single_test_file [of sys f t False st] r by simp
  then show ?case using r rs fs by (simp add: print_result_if_def)
qed

lemma sorted_find_test_files: "sorted (find_test_files output_dir fs)"
  by (simp add: find_test_files_def)

text \<open>
  C3 fails on the code. A file directly in the output directory matches both glob patterns,
  so discovery lists it twice and sequential mode runs it twice: one artifact, two results.
  (Discovery is sorted, and quiet sequential mode returns one result per discovered entry
  in that order: \<open>sorted_find_test_files\<close>, \<open>run_sequential_tests_quiet\<close>.)
\<close>

theorem top_level_artifact_discovered_twice:
  "find_test_files [''generated'', ''tests''] (Some [[''basic_default.bats'']])
     = [[''generated'', ''tests'', ''basic_default.bats''],
        [''generated'', ''tests'', ''basic_default.bats'']] \<and>
   fst (run_sequential_tests (const_system (Completed 0 [] []))
      (find_test_files [''generated'', ''tests''] (Some [[''basic_default.bats'']])) 300 False ((), []))
     = Inr [\<lparr>test_file = ''generated/tests/basic_default.bats'', success = True,
             output_text = [], duration = 0, exit_code = 0, error_message = None\<rparr>,
            \<lparr>test_file = ''generated/tests/basic_default.bats'', success = True,
             output_text = [], duration = 0, exit_code = 0, error_message = None\<rparr>]"
  by (simp add: find_test_files_def glob_bats_def rglob_bats_def endswith_def
      run_single_test_def check_bats_available_def subprocess_run_def const_system_def
      print_if_def print_result_if_def)

subsection \<open>Collecting the futures\<close>

lemma collect_results_quiet:
  "collect_results sys False fs st = (map retrieved_result fs, st)"
proof (induction fs)
  case Nil
  show ?case by simp
next
  case (Cons x fs)
  obtain outcome tfile where x: "x = (outcome, tfile)" by (cases x)
  show ?case
    using Cons.IH
    by (cases outcome)
       (simp_all add: x print_result_if_def retrieved_result_def errored_result_def)
qed

lemma collect_results_contains:
  "x \<in> set fs \<Longrightarrow> retrieved_result x \<in> set (fst (collect_results sys v fs st))"
proof (induction fs arbitrary: st)
  case Nil
  then show ?case by simp
next
  case (Cons y fs)
  obtain outcome tfile where y: "y = (outcome, tfile)" by (cases y)
  have tail: "x \<in> set fs \<Longrightarrow> retrieved_result x \<in> set (fst (collect_results sys v fs s))" for s
    using Cons.IH by blast
  show ?case
  proof (cases "x = y")
    case True
    then show ?thesis
      by (auto simp: y retrieved_result_def errored_result_def
          split: sum.splits prod.splits option.splits)
  next
    case False
    then have m: "x \<in> set fs" using Cons.prems by simp
    show ?thesis
    proof (cases outcome)
      case (Inl e)
      then show ?thesis using tail [OF m, of st] by (auto simp: y split: prod.splits)
    next
      case (Inr result)
      obtain po st1 where p: "print_result_if sys v result st = (po, st1)"
        by (cases "print_result_if sys v result st")
      show ?thesis
        using tail [OF m, of st1] Inr p
        by (cases po) (auto simp: y split: prod.splits)
    qed
  qed
qed

lemma collect_results_length:
  "length fs \<le> length (fst (collect_results sys v fs st))"
proof (induction fs arbitrary: st)
  case Nil
  show ?case by simp
next
  case (Cons y fs)
  obtain outcome tfile where y: "y = (outcome, tfile)" by (cases y)
  show ?case
  proof (cases outcome)
    case (Inl e)
    then show ?thesis using Cons.IH [of st] by (auto simp: y split: prod.splits)
  next
    case (Inr result)
    obtain po st1 where p: "print_result_if sys v result st = (po, st1)"
      by (cases "print_result_if sys v result st")
    show ?thesis
      using Cons.IH [of st1] Inr p
      by (cases po) (auto simp: y split: prod.splits)
  qed
qed

lemma submitted_future_member:
  "(a, b) \<in> set (zip xs ys) \<Longrightarrow> (g (a, b), a) \<in> set (zip (map g (zip xs ys)) xs)"
proof (induction xs arbitrary: ys)
  case Nil
  then show ?case by simp
next
  case (Cons x xs)
  then show ?case by (cases ys) auto
qed

text \<open>
  What does hold in parallel mode: without verbose printing the results are, up to
  order, the retrieved outcomes of the submitted futures, one for each.
\<close>

lemma run_parallel_tests_quiet:
  assumes "mset (as_completed (submitted_futures sys t False test_files workers))
             = mset (submitted_futures sys t False test_files workers)"
    and "length workers = length test_files" and "0 < max_parallel"
  shows "\<exists>rs. run_parallel_tests sys as_completed workers test_files max_parallel t False st
            = (Inr rs, st) \<and>
          mset rs = mset (map retrieved_result (submitted_futures sys t False test_files workers)) \<and>
          length rs = length test_files"
proof -
  let ?F = "submitted_futures sys t False test_files workers"
  have r: "run_parallel_tests sys as_completed workers test_files max_parallel t False st
            = (Inr (map retrieved_result (as_completed ?F)), st)"
    using assms(3)
    by (simp add: run_parallel_tests_def submitted_futures_def collect_results_quiet)
  have m: "mset (map retrieved_result (as_completed ?F)) = mset (map retrieved_result ?F)"
    using assms(1) by simp
  have "length (as_completed ?F) = length ?F" using assms(1) by (metis size_mset)
  then have l: "length (map retrieved_result (as_completed ?F)) = length test_files"
    using assms(2) by (simp add: submitted_futures_def)
  show ?thesis using r m l by blast
qed

text \<open>
  C7 fails on the code. In verbose mode the status line is printed inside the
  \<^verbatim>\<open>try\<close>, after the result was appended: on a console that cannot encode the mark the
  print raises, the handler appends a synthetic failing result for the same artifact, and
  one submitted artifact that passed gives two results.
\<close>

theorem parallel_print_failure_adds_result:
  "run_parallel_tests ascii_stdout_system (\<lambda>fs. fs) [Inr ((), [])] [[''out'', ''a.bats'']]
       4 300 True ((), [])
     = (Inr [\<lparr>test_file = ''out/a.bats'', success = True, output_text = ''ok'', duration = 0,
              exit_code = 0, error_message = None\<rparr>,
             \<lparr>test_file = ''out/a.bats'', success = False, output_text = [], duration = 0,
              exit_code = 1,
              error_message = Some ''ascii codec cannot encode character in position 0''\<rparr>],
        ((), []))"
  by (simp add: run_parallel_tests_def worker_outcome_def run_single_test_def
      check_bats_available_def subprocess_run_def ascii_stdout_system_def ascii_console_def
      print_if_def print_result_if_def print_test_result_def py_print_def errored_result_def)

subsection \<open>Timeouts\<close>

lemma run_single_test_timeout:
  assumes "run_process sys version_check w = (Completed 0 vout verr, w1)"
    and "(if verbose then console_print sys (Running [''bats'', path_str f]) w1 else (None, w1))
           = (None, w1p)"
    and "run_process sys (bats_call f t) w1p = (TimeoutExpired, w2)"
  shows "run_single_test sys f t verbose (w, calls) =
           (timed_out_result f t (time_now sys w2 - time_now sys w),
            (w2, calls @ [version_check, bats_call f t]))"
  using assms
  by (cases verbose)
     (simp_all add: run_single_test_def check_bats_available_def subprocess_run_def Let_def
        print_if_def py_print_def version_check_def bats_call_def)

text \<open>
  C8, as the code has it. When the runner is available and the run of an artifact exceeds
  the timeout (in verbose mode, after the \<^verbatim>\<open>Running:\<close> line was printed),
  \<^verbatim>\<open>_run_single_test\<close> returns for it a result with success false, exit code 1 and the
  message "Test timed out after <timeout> seconds", and has invoked the artifact's command
  once (no retry). In parallel mode this result is among the results returned, together
  with the retrieved outcome of every submitted artifact. In sequential mode the engine
  goes on with the remaining artifacts when printing the result does not raise (or verbose
  is off).
\<close>

theorem timeout_recorded_without_retry:
  assumes "run_process sys version_check w = (Completed 0 vout verr, w1)"
    and "(if verbose then console_print sys (Running [''bats'', path_str f]) w1 else (None, w1))
           = (None, w1p)"
    and "run_process sys (bats_call f t) w1p = (TimeoutExpired, w2)"
  shows "run_single_test sys f t verbose (w, calls) =
           (\<lparr>test_file = path_str f, success = False, output_text = [],
             duration = time_now sys w2 - time_now sys w, exit_code = 1,
             error_message = Some (''Test timed out after '' @ str_int t @ '' seconds'')\<rparr>,
            (w2, calls @ [version_check, bats_call f t])) \<and>
         ((f, Inr (w, calls)) \<in> set (zip test_files workers) \<and>
          length workers = length test_files \<and> 0 < max_parallel \<and>
          mset (as_completed (submitted_futures sys t verbose test_files workers))
            = mset (submitted_futures sys t verbose test_files workers) \<longrightarrow>
            (\<exists>rs st'.
               run_parallel_tests sys as_completed workers test_files max_parallel t verbose st
                 = (Inr rs, st') \<and>
               timed_out_result f t (time_now sys w2 - time_now sys w) \<in> set rs \<and>
               (\<forall>x \<in> set (submitted_futures sys t verbose test_files workers).
                  retrieved_result x \<in> set rs) \<and>
               length test_files \<le> length rs)) \<and>
         (print_result_if sys verbose (timed_out_result f t (time_now sys w2 - time_now sys w))
            (w2, calls @ [version_check, bats_call f t]) = (None, st3) \<longrightarrow>
            run_sequential_tests sys (f # rest) t verbose (w, calls) =
              (case run_sequential_tests sys rest t verbose st3 of
                 (Inl e, s) \<Rightarrow> (Inl e, s)
               | (Inr rs, s) \<Rightarrow>
                   (Inr (timed_out_result f t (time_now sys w2 - time_now sys w) # rs), s)))"
proof (intro conjI impI)
  note s = run_single_test_timeout [OF assms, of calls]
  show "run_single_test sys f t verbose (w, calls) =
           (\<lparr>test_file = path_str f, success = False, output_text = [],
             duration = time_now sys w2 - time_now sys w, exit_code = 1,
             error_message = Some (''Test timed out after '' @ str_int t @ '' seconds'')\<rparr>,
            (w2, calls @ [version_check, bats_call f t]))"
    using s by (simp add: timed_out_result_def)
next
  note s = run_single_test_timeout [OF assms, of calls]
  let ?F = "submitted_futures sys t verbose test_files workers"
  let ?TO = "timed_out_result f t (time_now sys w2 - time_now sys w)"
  assume a: "(f, Inr (w, calls)) \<in> set (zip test_files workers) \<and>
          length workers = length test_files \<and> 0 < max_parallel \<and>
          mset (as_completed ?F) = mset ?F"
  obtain rs st' where c: "collect_results sys verbose (as_completed ?F) st = (rs, st')"
    by (cases "collect_results sys verbose (as_completed ?F) st")
  have r: "run_parallel_tests sys as_completed workers test_files max_parallel t verbose st
             = (Inr rs, st')"
    using a c by (simp add: run_parallel_tests_def submitted_futures_def)
  have same: "set (as_completed ?F) = set ?F" using a by (metis set_mset_mset)
  have all: "\<forall>x \<in> set ?F. retrieved_result x \<in> set rs"
    using collect_results_contains [of _ "as_completed ?F" sys verbose st] same c by auto
  have "(worker_outcome sys t verbose (f, Inr (w, calls)), f) \<in> set ?F"
    unfolding submitted_futures_def using a submitted_future_member by fast
  then have "retrieved_result (worker_outcome sys t verbose (f, Inr (w, calls)), f) \<in> set rs"
    using all by blast
  then have to: "?TO \<in> set rs"
    using s by (simp add: retrieved_result_def worker_outcome_def)
  have "length (as_completed ?F) = length ?F" using a by (metis size_mset)
  moreover have "length ?F = length test_files" using a by (simp add: submitted_futures_def)
  ultimately have len: "length test_files \<le> length rs"
    using collect_results_length [of "as_completed ?F" sys verbose st] c by simp
  show "\<exists>rs st'.
          run_parallel_tests sys as_completed workers test_files max_parallel t verbose st
            = (Inr rs, st') \<and>
          ?TO \<in> set rs \<and> (\<forall>x \<in> set ?F. retrieved_result x \<in> set rs) \<and>
          length test_files \<le> length rs"
    using r to all len by blast
next
  note s = run_single_test_timeout [OF assms, of calls]
  assume "print_result_if sys verbose (timed_out_result f t (time_now sys w2 - time_now sys w))
            (w2, calls @ [version_check, bats_call f t]) = (None, st3)"
  then show "run_sequential_tests sys (f # rest) t verbose (w, calls) =
              (case run_sequential_tests sys rest t verbose st3 of
                 (Inl e, s) \<Rightarrow> (Inl e, s)
               | (Inr rs, s) \<Rightarrow>
                   (Inr (timed_out_result f t (time_now sys w2 - time_now sys w) # rs), s))"
    using s by simp
qed

theorem timeout_recorded_without_retry_witness:
  "run_single_test hanging_system [''out'', ''a.bats''] 300 True ((), []) =
     (\<lparr>test_file = ''out/a.bats'', success = False, output_text = [], duration = 0,
       exit_code = 1, error_message = Some ''Test timed out after 300 seconds''\<rparr>,
      ((), [\<lparr>argv = [''bats'', ''--version''], time_limit = None, cwd = None\<rparr>,
            \<lparr>argv = [''bats'', ''out/a.bats''], time_limit = Some 300, cwd = Some [''out'']\<rparr>])) \<and>
   fst (run_sequential_tests hanging_system [[''out'', ''a.bats''], [''out'', ''b.bats'']]
          300 True ((), []))
     = Inr [\<lparr>test_file = ''out/a.bats'', success = False, output_text = [], duration = 0,
             exit_code = 1, error_message = Some ''Test timed out after 300 seconds''\<rparr>,
            \<lparr>test_file = ''out/b.bats'', success = False, output_text = [], duration = 0,
             exit_code = 1, error_message = Some ''Test timed out after 300 seconds''\<rparr>] \<and>
   fst (run_parallel_tests hanging_system rev [Inr ((), []), Inr ((), [])]
          [[''out'', ''a.bats''], [''out'', ''b.bats'']] 2 300 True ((), []))
     = Inr [\<lparr>test_file = ''out/b.bats'', success = False, output_text = [], duration = 0,
             exit_code = 1, error_message = Some ''Test timed out after 300 seconds''\<rparr>,
            \<lparr>test_file = ''out/a.bats'', success = False, output_text = [], duration = 0,
             exit_code = 1, error_message = Some ''Test timed out after 300 seconds''\<rparr>]"
proof -
  let ?a = "[''out'', ''a.bats'']"
  let ?b = "[''out'', ''b.bats'']"
  let ?st3 = "((), [version_check, bats_call ?a 300])"
  have h1: "run_process hanging_system version_check () = (Completed 0 ''Bats 1.10.0'' [], ())"
    by (simp add: hanging_system_def version_check_def)
  have h2: "(if True then console_print hanging_system (Running [''bats'', path_str ?a]) ()
             else (None, ())) = (None, ())"
    by (simp add: hanging_system_def)
  have h3: "run_process hanging_system (bats_call ?a 300) () = (TimeoutExpired, ())"
    by (simp add: hanging_system_def bats_call_def)
  note T = timeout_recorded_without_retry [OF h1 h2 h3, of "[]" _ _ _ _ _ ?st3 "[?b]"]
  have a: "time_now hanging_system () = 0" by (simp add: hanging_system_def)
  have s: "str_int 300 = ''300''" by (simp add: str_int_def str_nat.simps digit_char_def)
  have c1: "run_single_test hanging_system ?a 300 True ((), []) =
     (\<lparr>test_file = ''out/a.bats'', success = False, output_text = [], duration = 0,
       exit_code = 1, error_message = Some ''Test timed out after 300 seconds''\<rparr>,
      ((), [\<lparr>argv = [''bats'', ''--version''], time_limit = None, cwd = None\<rparr>,
            \<lparr>argv = [''bats'', ''out/a.bats''], time_limit = Some 300, cwd = Some [''out'']\<rparr>]))"
    using T [THEN conjunct1] by (simp add: a s version_check_def bats_call_def)
  have p: "print_result_if hanging_system True
             (timed_out_result ?a 300 (time_now hanging_system () - time_now hanging_system ()))
             ((), [] @ [version_check, bats_call ?a 300]) = (None, ?st3)"
    by (simp add: print_result_if_def print_test_result_def py_print_def hanging_system_def
        timed_out_result_def)
  have r: "fst (run_sequential_tests hanging_system [?b] 300 True ?st3)
     = Inr [\<lparr>test_file = ''out/b.bats'', success = False, output_text = [], duration = 0,
             exit_code = 1, error_message = Some ''Test timed out after 300 seconds''\<rparr>]"
    by (simp add: run_single_test_def check_bats_available_def subprocess_run_def
        hanging_system_def print_if_def print_result_if_def print_test_result_def py_print_def
        timed_out_result_def s)
  have c2: "fst (run_sequential_tests hanging_system [?a, ?b] 300 True ((), []))
     = Inr [\<lparr>test_file = ''out/a.bats'', success = False, output_text = [], duration = 0,
             exit_code = 1, error_message = Some ''Test timed out after 300 seconds''\<rparr>,
            \<lparr>test_file = ''out/b.bats'', success = False, output_text = [], duration = 0,
             exit_code = 1, error_message = Some ''Test timed out after 300 seconds''\<rparr>]"
    using T [THEN conjunct2, THEN conjunct2, rule_format, OF p] r
    by (simp add: a s timed_out_result_def split: prod.splits sum.splits
        del: run_sequential_tests.simps)
  have c3: "fst (run_parallel_tests hanging_system rev [Inr ((), []), Inr ((), [])]
          [?a, ?b] 2 300 True ((), []))
     = Inr [\<lparr>test_file = ''out/b.bats'', success = False, output_text = [], duration = 0,
             exit_code = 1, error_message = Some ''Test timed out after 300 seconds''\<rparr>,
            \<lparr>test_file = ''out/a.bats'', success = False, output_text = [], duration = 0,
             exit_code = 1, error_message = Some ''Test timed out after 300 seconds''\<rparr>]"
    by (simp add: run_parallel_tests_def worker_outcome_def run_single_test_def
        check_bats_available_def subprocess_run_def hanging_system_def print_if_def
        print_result_if_def print_test_result_def py_print_def timed_out_result_def s)
  show ?thesis using c1 c2 c3 by blast
qed

text \<open>
  C8 as stated fails in sequential verbose mode: on a console that cannot encode the
  status line, the print after the timed-out artifact raises, the run ends with the
  exception, and the second artifact is never invoked.
\<close>

theorem sequential_print_failure_stops_run:
  "run_sequential_tests hanging_ascii_system [[''out'', ''a.bats''], [''out'', ''b.bats'']]
       300 True ((), [])
     = (Inl (OtherException ''ascii codec cannot encode character in position 0''),
        ((), [\<lparr>argv = [''bats'', ''--version''], time_limit = None, cwd = None\<rparr>,
              \<lparr>argv = [''bats'', ''out/a.bats''], time_limit = Some 300,
               cwd = Some [''out'']\<rparr>]))"
  by (simp add: run_single_test_def check_bats_available_def subprocess_run_def
      hanging_ascii_system_def ascii_console_def print_if_def print_result_if_def
      print_test_result_def py_print_def)

subsection \<open>Reference resolution\<close>

lemma walk_append:
  "walk sroot (xs @ ys) = (case walk sroot xs of Inl e \<Rightarrow> Inl e | Inr v \<Rightarrow> walk v ys)"
  by (induction xs arbitrary: sroot) (auto split: sum.splits)

lemma resolve_items_fails:
  "(k, v) \<in> set kvs \<Longrightarrow> isl (resolve_ref v sroot) \<Longrightarrow> isl (resolve_items kvs sroot)"
  by (induction kvs) (auto split: sum.splits)

lemma resolve_elems_fails:
  "x \<in> set xs \<Longrightarrow> isl (resolve_ref x sroot) \<Longrightarrow> isl (resolve_elems xs sroot)"
  by (induction xs) (auto split: sum.splits)

lemma reached_fails:
  "reached doc sub \<Longrightarrow> isl (resolve_ref sub sroot) \<Longrightarrow> isl (resolve_ref doc sroot)"
proof (induction rule: reached.induct)
  case reached_root
  then show ?case .
next
  case (reached_item kvs k v)
  have "isl (resolve_items kvs sroot)"
    using resolve_items_fails reached_item.hyps(3) reached_item.prems by blast
  then have "isl (resolve_ref (PDict kvs) sroot)"
    using reached_item.hyps(2) by (auto split: sum.splits)
  then show ?case by (rule reached_item.IH)
next
  case (reached_elem xs x)
  have "isl (resolve_elems xs sroot)"
    using resolve_elems_fails reached_elem.hyps(2) reached_elem.prems by blast
  then have "isl (resolve_ref (PList xs) sroot)"
    by (auto split: sum.splits)
  then show ?case by (rule reached_elem.IH)
qed


lemma resolve_items_iff:
  "resolve_items kvs r = Inr kvs' \<longleftrightarrow>
     list_all2 (\<lambda>(k, v) (k', v'). k' = k \<and> resolve_ref v r = Inr v') kvs kvs'"
proof (induction kvs arbitrary: kvs')
  case Nil
  show ?case by auto
next
  case (Cons p kvs)
  obtain k v where p: "p = (k, v)" by (cases p)
  show ?case
  proof (cases kvs')
    case Nil
    then show ?thesis by (simp add: p split: sum.splits)
  next
    case (Cons q rest)
    obtain k' v' where q: "q = (k', v')" by (cases q)
    show ?thesis
      unfolding Cons q p
      by (auto simp: Cons.IH [symmetric] split: sum.splits)
  qed
qed

lemma resolve_elems_iff:
  "resolve_elems xs r = Inr xs' \<longleftrightarrow> list_all2 (\<lambda>x x'. resolve_ref x r = Inr x') xs xs'"
proof (induction xs arbitrary: xs')
  case Nil
  show ?case by auto
next
  case (Cons x xs)
  show ?case
  proof (cases xs')
    case Nil
    then show ?thesis by (simp split: sum.splits)
  next
    case (Cons y rest)
    show ?thesis
      unfolding Cons
      by (auto simp: Cons.IH [symmetric] split: sum.splits)
  qed
qed

lemma resolve_items_error:
  "resolve_items kvs r = Inl e \<longleftrightarrow>
     (\<exists>pre k v post. kvs = pre @ (k, v) # post \<and>
        list_all (\<lambda>(k', v'). \<not> isl (resolve_ref v' r)) pre \<and> resolve_ref v r = Inl e)"
proof (induction kvs)
  case Nil
  show ?case by simp
next
  case (Cons q kvs)
  obtain k0 v0 where q: "q = (k0, v0)" by (cases q)
  show ?case
  proof (cases "resolve_ref v0 r")
    case (Inl e0)
    have "(\<exists>pre k v post. q # kvs = pre @ (k, v) # post \<and>
        list_all (\<lambda>(k', v'). \<not> isl (resolve_ref v' r)) pre \<and> resolve_ref v r = Inl e)
      \<longleftrightarrow> e0 = e"
    proof
      assume "\<exists>pre k v post. q # kvs = pre @ (k, v) # post \<and>
        list_all (\<lambda>(k', v'). \<not> isl (resolve_ref v' r)) pre \<and> resolve_ref v r = Inl e"
      then obtain pre k v post where a: "q # kvs = pre @ (k, v) # post"
        and b: "list_all (\<lambda>(k', v'). \<not> isl (resolve_ref v' r)) pre"
        and c: "resolve_ref v r = Inl e" by blast
      show "e0 = e"
      proof (cases pre)
        case Nil
        then show ?thesis using a c Inl q by simp
      next
        case (Cons x pre')
        then have "x = q" using a by simp
        then show ?thesis using b Cons Inl q by simp
      qed
    next
      assume "e0 = e"
      then have "q # kvs = [] @ (k0, v0) # kvs \<and>
        list_all (\<lambda>(k', v'). \<not> isl (resolve_ref v' r)) [] \<and> resolve_ref v0 r = Inl e"
        using Inl q by simp
      then show "\<exists>pre k v post. q # kvs = pre @ (k, v) # post \<and>
        list_all (\<lambda>(k', v'). \<not> isl (resolve_ref v' r)) pre \<and> resolve_ref v r = Inl e"
        by blast
    qed
    then show ?thesis using Inl q by auto
  next
    case (Inr w0)
    have eq: "(\<exists>pre k v post. q # kvs = pre @ (k, v) # post \<and>
        list_all (\<lambda>(k', v'). \<not> isl (resolve_ref v' r)) pre \<and> resolve_ref v r = Inl e)
      \<longleftrightarrow> (\<exists>pre k v post. kvs = pre @ (k, v) # post \<and>
        list_all (\<lambda>(k', v'). \<not> isl (resolve_ref v' r)) pre \<and> resolve_ref v r = Inl e)"
    proof
      assume "\<exists>pre k v post. q # kvs = pre @ (k, v) # post \<and>
        list_all (\<lambda>(k', v'). \<not> isl (resolve_ref v' r)) pre \<and> resolve_ref v r = Inl e"
      then obtain pre k v post where a: "q # kvs = pre @ (k, v) # post"
        and b: "list_all (\<lambda>(k', v'). \<not> isl (resolve_ref v' r)) pre"
        and c: "resolve_ref v r = Inl e" by blast
      show "\<exists>pre k v post. kvs = pre @ (k, v) # post \<and>
        list_all (\<lambda>(k', v'). \<not> isl (resolve_ref v' r)) pre \<and> resolve_ref v r = Inl e"
      proof (cases pre)
        case Nil
        then show ?thesis using a c Inr q by simp
      next
        case (Cons x pre')
        then have "kvs = pre' @ (k, v) # post" using a by simp
        moreover have "list_all (\<lambda>(k', v'). \<not> isl (resolve_ref v' r)) pre'"
          using b Cons by simp
        ultimately show ?thesis using c by blast
      qed
    next
      assume "\<exists>pre k v post. kvs = pre @ (k, v) # post \<and>
        list_all (\<lambda>(k', v'). \<not> isl (resolve_ref v' r)) pre \<and> resolve_ref v r = Inl e"
      then obtain pre k v post where a: "kvs = pre @ (k, v) # post"
        and b: "list_all (\<lambda>(k', v'). \<not> isl (resolve_ref v' r)) pre"
        and c: "resolve_ref v r = Inl e" by blast
      have "q # kvs = (q # pre) @ (k, v) # post \<and>
        list_all (\<lambda>(k', v'). \<not> isl (resolve_ref v' r)) (q # pre) \<and> resolve_ref v r = Inl e"
        using a b c Inr q by simp
      then show "\<exists>pre k v post. q # kvs = pre @ (k, v) # post \<and>
        list_all (\<lambda>(k', v'). \<not> isl (resolve_ref v' r)) pre \<and> resolve_ref v r = Inl e"
        by blast
    qed
    have step: "resolve_items (q # kvs) r = Inl e \<longleftrightarrow> resolve_items kvs r = Inl e"
      using Inr q by (simp split: sum.splits)
    show ?thesis by (simp only: step eq Cons.IH)
  qed
qed

lemma resolve_elems_error:
  "resolve_elems xs r = Inl e \<longleftrightarrow>
     (\<exists>pre x post. xs = pre @ x # post \<and>
        list_all (\<lambda>x'. \<not> isl (resolve_ref x' r)) pre \<and> resolve_ref x r = Inl e)"
proof (induction xs)
  case Nil
  show ?case by simp
next
  case (Cons x0 xs)
  show ?case
  proof (cases "resolve_ref x0 r")
    case (Inl e0)
    have "(\<exists>pre x post. x0 # xs = pre @ x # post \<and>
        list_all (\<lambda>x'. \<not> isl (resolve_ref x' r)) pre \<and> resolve_ref x r = Inl e)
      \<longleftrightarrow> e0 = e"
    proof
      assume "\<exists>pre x post. x0 # xs = pre @ x # post \<and>
        list_all (\<lambda>x'. \<not> isl (resolve_ref x' r)) pre \<and> resolve_ref x r = Inl e"
      then obtain pre x post where a: "x0 # xs = pre @ x # post"
        and b: "list_all (\<lambda>x'. \<not> isl (resolve_ref x' r)) pre"
        and c: "resolve_ref x r = Inl e" by blast
      show "e0 = e"
      proof (cases pre)
        case Nil
        then show ?thesis using a c Inl by simp
      next
        case (Cons y pre')
        then have "y = x0" using a by simp
        then show ?thesis using b Cons Inl by simp
      qed
    next
      assume "e0 = e"
      then have "x0 # xs = [] @ x0 # xs \<and>
        list_all (\<lambda>x'. \<not> isl (resolve_ref x' r)) [] \<and> resolve_ref x0 r = Inl e"
        using Inl by simp
      then show "\<exists>pre x post. x0 # xs = pre @ x # post \<and>
        list_all (\<lambda>x'. \<not> isl (resolve_ref x' r)) pre \<and> resolve_ref x r = Inl e"
        by blast
    qed
    then show ?thesis using Inl by auto
  next
    case (Inr w0)
    have eq: "(\<exists>pre x post. x0 # xs = pre @ x # post \<and>
        list_all (\<lambda>x'. \<not> isl (resolve_ref x' r)) pre \<and> resolve_ref x r = Inl e)
      \<longleftrightarrow> (\<exists>pre x post. xs = pre @ x # post \<and>
        list_all (\<lambda>x'. \<not> isl (resolve_ref x' r)) pre \<and> resolve_ref x r = Inl e)"
    proof
      assume "\<exists>pre x post. x0 # xs = pre @ x # post \<and>
        list_all (\<lambda>x'. \<not> isl (resolve_ref x' r)) pre \<and> resolve_ref x r = Inl e"
      then obtain pre x post where a: "x0 # xs = pre @ x # post"
        and b: "list_all (\<lambda>x'. \<not> isl (resolve_ref x' r)) pre"
        and c: "resolve_ref x r = Inl e" by blast
      show "\<exists>pre x post. xs = pre @ x # post \<and>
        list_all (\<lambda>x'. \<not> isl (resolve_ref x' r)) pre \<and> resolve_ref x r = Inl e"
      proof (cases pre)
        case Nil
        then show ?thesis using a c Inr by simp
      next
        case (Cons y pre')
        then have "xs = pre' @ x # post" using a by simp
        moreover have "list_all (\<lambda>x'. \<not> isl (resolve_ref x' r)) pre'"
          using b Cons by simp
        ultimately show ?thesis using c by blast
      qed
    next
      assume "\<exists>pre x post. xs = pre @ x # post \<and>
        list_all (\<lambda>x'. \<not> isl (resolve_ref x' r)) pre \<and> resolve_ref x r = Inl e"
      then obtain pre x post where a: "xs = pre @ x # post"
        and b: "list_all (\<lambda>x'. \<not> isl (resolve_ref x' r)) pre"
        and c: "resolve_ref x r = Inl e" by blast
      have "x0 # xs = (x0 # pre) @ x # post \<and>
        list_all (\<lambda>x'. \<not> isl (resolve_ref x' r)) (x0 # pre) \<and> resolve_ref x r = Inl e"
        using a b c Inr by simp
      then show "\<exists>pre x post. x0 # xs = pre @ x # post \<and>
        list_all (\<lambda>x'. \<not> isl (resolve_ref x' r)) pre \<and> resolve_ref x r = Inl e"
        by blast
    qed
    have step: "resolve_elems (x0 # xs) r = Inl e \<longleftrightarrow> resolve_elems xs r = Inl e"
      using Inr by (simp split: sum.splits)
    show ?thesis by (simp only: step eq Cons.IH)
  qed
qed

text \<open>
  C6. Resolution of a document leaves a scalar as it is, resolves a list element by
  element and a dict without \<^verbatim>\<open>$ref\<close> value by value (same keys, same order), and
  fails there with the error of the first element or value that fails. A dict
  holding an internal reference \<^verbatim>\<open>#/a/b/c\<close> resolves to what walking the segments from
  the document root leads to; when a segment is absent from the dict reached so far,
  resolution raises (\<^verbatim>\<open>KeyError\<close> of that segment: the code's form of
  UnresolvedReference), and so does resolution of the whole document when the traversal
  visits that reference; it never yields a value there. A reference that does not start
  with \<^verbatim>\<open>#\<close> is returned unchanged; a \<^verbatim>\<open>$ref\<close> that is not a string raises
  \<^verbatim>\<open>AttributeError\<close>.
\<close>

theorem resolve_refs_internal_and_external:
  "(map_of kvs ''$ref'' = Some (PStr (''#/'' @ p)) \<longrightarrow>
      resolve_ref (PDict kvs) sroot = walk sroot (split_on CHR ''/'' p)) \<and>
   (map_of kvs ''$ref'' = Some (PStr (''#/'' @ p)) \<and> split_on CHR ''/'' p = pre @ seg # post \<and>
    walk sroot pre = Inr (PDict d) \<and> map_of d seg = None \<longrightarrow>
      resolve_ref (PDict kvs) sroot = Inl (KeyError seg)) \<and>
   (map_of kvs ''$ref'' = Some (PStr (''#/'' @ p)) \<and> split_on CHR ''/'' p = pre @ seg # post \<and>
    walk doc pre = Inr (PDict d) \<and> map_of d seg = None \<and> reached doc (PDict kvs) \<longrightarrow>
      isl (resolve_refs doc)) \<and>
   (map_of kvs ''$ref'' = Some (PStr r) \<and> \<not> startswith r ''#'' \<longrightarrow>
      resolve_ref (PDict kvs) sroot = Inr (PDict kvs)) \<and>
   (map_of kvs ''$ref'' = None \<longrightarrow>
      (resolve_ref (PDict kvs) sroot = Inr res \<longleftrightarrow>
         (\<exists>kvs'. res = PDict kvs' \<and>
            list_all2 (\<lambda>(k, v) (k', v'). k' = k \<and> resolve_ref v sroot = Inr v') kvs kvs'))) \<and>
   (resolve_ref (PList xs) sroot = Inr res \<longleftrightarrow>
      (\<exists>xs'. res = PList xs' \<and> list_all2 (\<lambda>x x'. resolve_ref x sroot = Inr x') xs xs')) \<and>
   resolve_ref PNone sroot = Inr PNone \<and> resolve_ref (PBool b) sroot = Inr (PBool b) \<and>
   resolve_ref (PInt i) sroot = Inr (PInt i) \<and> resolve_ref (PFloat x) sroot = Inr (PFloat x) \<and>
   resolve_ref (PStr s) sroot = Inr (PStr s) \<and>
   resolve_refs doc = resolve_ref doc doc \<and>
   (map_of kvs ''$ref'' = Some (PStr r) \<and> startswith r ''#'' \<longrightarrow>
      resolve_ref (PDict kvs) sroot = walk sroot (split_on CHR ''/'' (drop 2 r))) \<and>
   (map_of kvs ''$ref'' = Some v \<and> (\<forall>t. v \<noteq> PStr t) \<longrightarrow>
      resolve_ref (PDict kvs) sroot = Inl AttributeError) \<and>
   (map_of kvs ''$ref'' = None \<longrightarrow>
      (resolve_ref (PDict kvs) sroot = Inl e \<longleftrightarrow>
         (\<exists>before k u after. kvs = before @ (k, u) # after \<and>
            list_all (\<lambda>(k', v'). \<not> isl (resolve_ref v' sroot)) before \<and>
            resolve_ref u sroot = Inl e))) \<and>
   (resolve_ref (PList xs) sroot = Inl e \<longleftrightarrow>
      (\<exists>before u after. xs = before @ u # after \<and>
         list_all (\<lambda>x'. \<not> isl (resolve_ref x' sroot)) before \<and> resolve_ref u sroot = Inl e))"
proof -
  have internal: "resolve_ref (PDict kvs) rt = walk rt (split_on CHR ''/'' p)"
    if "map_of kvs ''$ref'' = Some (PStr (''#/'' @ p))" for rt
    using that by (simp add: startswith_def)
  have absent: "resolve_ref (PDict kvs) rt = Inl (KeyError seg)"
    if "map_of kvs ''$ref'' = Some (PStr (''#/'' @ p))" "split_on CHR ''/'' p = pre @ seg # post"
      "walk rt pre = Inr (PDict d)" "map_of d seg = None" for rt
    using that internal [of rt] by (simp add: walk_append)
  have doc_level: "isl (resolve_refs doc)"
    if "map_of kvs ''$ref'' = Some (PStr (''#/'' @ p))" "split_on CHR ''/'' p = pre @ seg # post"
      "walk doc pre = Inr (PDict d)" "map_of d seg = None" "reached doc (PDict kvs)"
  proof -
    have "isl (resolve_ref (PDict kvs) doc)"
      using absent [of doc] that by simp
    then show ?thesis
      unfolding resolve_refs_def using that(5) reached_fails by blast
  qed
  have external: "resolve_ref (PDict kvs) sroot = Inr (PDict kvs)"
    if "map_of kvs ''$ref'' = Some (PStr r)" "\<not> startswith r ''#''"
    using that by simp
  have items: "resolve_ref (PDict kvs) sroot = Inr res \<longleftrightarrow>
         (\<exists>kvs'. res = PDict kvs' \<and>
            list_all2 (\<lambda>(k, v) (k', v'). k' = k \<and> resolve_ref v sroot = Inr v') kvs kvs')"
    if "map_of kvs ''$ref'' = None"
    using that
    by (auto simp: resolve_items_iff [symmetric] split: sum.splits)
  have elems: "resolve_ref (PList xs) sroot = Inr res \<longleftrightarrow>
      (\<exists>xs'. res = PList xs' \<and> list_all2 (\<lambda>x x'. resolve_ref x sroot = Inr x') xs xs')"
    by (auto simp: resolve_elems_iff [symmetric] split: sum.splits)
  have scalars: "resolve_ref PNone sroot = Inr PNone \<and> resolve_ref (PBool b) sroot = Inr (PBool b) \<and>
   resolve_ref (PInt i) sroot = Inr (PInt i) \<and> resolve_ref (PFloat x) sroot = Inr (PFloat x) \<and>
   resolve_ref (PStr s) sroot = Inr (PStr s) \<and> resolve_refs doc = resolve_ref doc doc"
    by (simp add: resolve_refs_def)
  have any_internal: "resolve_ref (PDict kvs) sroot = walk sroot (split_on CHR ''/'' (drop 2 r))"
    if "map_of kvs ''$ref'' = Some (PStr r)" "startswith r ''#''"
    using that by simp
  have not_string: "resolve_ref (PDict kvs) sroot = Inl AttributeError"
    if "map_of kvs ''$ref'' = Some v" "\<forall>t. v \<noteq> PStr t"
    using that by (cases v) simp_all
  have items_fail: "resolve_ref (PDict kvs) sroot = Inl e \<longleftrightarrow>
         (\<exists>before k u after. kvs = before @ (k, u) # after \<and>
            list_all (\<lambda>(k', v'). \<not> isl (resolve_ref v' sroot)) before \<and>
            resolve_ref u sroot = Inl e)"
    if "map_of kvs ''$ref'' = None"
  proof -
    have "resolve_ref (PDict kvs) sroot = Inl e \<longleftrightarrow> resolve_items kvs sroot = Inl e"
      using that by (simp split: sum.splits)
    then show ?thesis by (simp only: resolve_items_error)
  qed
  have elems_fail: "resolve_ref (PList xs) sroot = Inl e \<longleftrightarrow>
      (\<exists>before u after. xs = before @ u # after \<and>
         list_all (\<lambda>x'. \<not> isl (resolve_ref x' sroot)) before \<and> resolve_ref u sroot = Inl e)"
  proof -
    have "resolve_ref (PList xs) sroot = Inl e \<longleftrightarrow> resolve_elems xs sroot = Inl e"
      by (simp split: sum.splits)
    then show ?thesis by (simp only: resolve_elems_error)
  qed
  have part1: "(map_of kvs ''$ref'' = Some (PStr (''#/'' @ p)) \<longrightarrow>
      resolve_ref (PDict kvs) sroot = walk sroot (split_on CHR ''/'' p)) \<and>
   (map_of kvs ''$ref'' = Some (PStr (''#/'' @ p)) \<and> split_on CHR ''/'' p = pre @ seg # post \<and>
    walk sroot pre = Inr (PDict d) \<and> map_of d seg = None \<longrightarrow>
      resolve_ref (PDict kvs) sroot = Inl (KeyError seg)) \<and>
   (map_of kvs ''$ref'' = Some (PStr (''#/'' @ p)) \<and> split_on CHR ''/'' p = pre @ seg # post \<and>
    walk doc pre = Inr (PDict d) \<and> map_of d seg = None \<and> reached doc (PDict kvs) \<longrightarrow>
      isl (resolve_refs doc)) \<and>
   (map_of kvs ''$ref'' = Some (PStr r) \<and> \<not> startswith r ''#'' \<longrightarrow>
      resolve_ref (PDict kvs) sroot = Inr (PDict kvs))"
    using internal [of sroot] absent [of sroot] doc_level external by blast
  have part2: "(map_of kvs ''$ref'' = None \<longrightarrow>
      (resolve_ref (PDict kvs) sroot = Inr res \<longleftrightarrow>
         (\<exists>kvs'. res = PDict kvs' \<and>
            list_all2 (\<lambda>(k, v) (k', v'). k' = k \<and> resolve_ref v sroot = Inr v') kvs kvs'))) \<and>
   (resolve_ref (PList xs) sroot = Inr res \<longleftrightarrow>
      (\<exists>xs'. res = PList xs' \<and> list_all2 (\<lambda>x x'. resolve_ref x sroot = Inr x') xs xs'))"
    using items elems by blast
  have part3: "(map_of kvs ''$ref'' = Some (PStr r) \<and> startswith r ''#'' \<longrightarrow>
      resolve_ref (PDict kvs) sroot = walk sroot (split_on CHR ''/'' (drop 2 r))) \<and>
   (map_of kvs ''$ref'' = Some v \<and> (\<forall>t. v \<noteq> PStr t) \<longrightarrow>
      resolve_ref (PDict kvs) sroot = Inl AttributeError) \<and>
   (map_of kvs ''$ref'' = None \<longrightarrow>
      (resolve_ref (PDict kvs) sroot = Inl e \<longleftrightarrow>
         (\<exists>before k u after. kvs = before @ (k, u) # after \<and>
            list_all (\<lambda>(k', v'). \<not> isl (resolve_ref v' sroot)) before \<and>
            resolve_ref u sroot = Inl e))) \<and>
   (resolve_ref (PList xs) sroot = Inl e \<longleftrightarrow>
      (\<exists>before u after. xs = before @ u # after \<and>
         list_all (\<lambda>x'. \<not> isl (resolve_ref x' sroot)) before \<and> resolve_ref u sroot = Inl e))"
    using any_internal not_string items_fail elems_fail by blast
  show ?thesis
    using part1 part2 scalars part3 by (elim conjE) (intro conjI; assumption)
qed

theorem resolve_refs_internal_and_external_witness:
  "resolve_ref (PDict [(''$ref'', PStr ''#/components/schemas/Missing'')]) petstore_doc
     = Inl (KeyError ''Missing'') \<and>
   isl (resolve_refs petstore_doc) \<and>
   resolve_ref (PDict [(''$ref'', PStr ''#/components/schemas/Pet'')]) petstore_doc
     = Inr (PDict [(''type'', PStr ''object'')]) \<and>
   resolve_ref (PDict [(''$ref'', PStr ''other.yaml#/Pet'')]) petstore_doc
     = Inr (PDict [(''$ref'', PStr ''other.yaml#/Pet'')]) \<and>
   resolve_refs library_doc
     = Inr (PDict [(''paths'',
                    PDict [(''/books'', PList [PDict [(''type'', PStr ''object'')],
                                              PDict [(''$ref'', PStr ''common.yaml#/Error'')],
                                              PInt 7])]),
                   (''components'',
                    PDict [(''schemas'', PDict [(''Book'', PDict [(''type'', PStr ''object'')])])])])"
proof -
  let ?kvs = "[(''$ref'', PStr ''#/components/schemas/Missing'')]"
  let ?d = "[(''Pet'', PDict [(''type'', PStr ''object'')])]"
  note T = resolve_refs_internal_and_external
    [where kvs = ?kvs and p = "''components/schemas/Missing''" and sroot = petstore_doc
       and pre = "[''components'', ''schemas'']" and seg = "''Missing''" and post = "[]"
       and d = ?d and doc = petstore_doc]
  have r: "map_of ?kvs ''$ref'' = Some (PStr (''#/'' @ ''components/schemas/Missing''))" by simp
  have sp: "split_on CHR ''/'' ''components/schemas/Missing'' = [''components'', ''schemas''] @ ''Missing'' # []"
    by simp
  have w: "walk petstore_doc [''components'', ''schemas''] = Inr (PDict ?d)"
    by (simp add: petstore_doc_def)
  have m: "map_of ?d ''Missing'' = None" by simp
  have rc: "reached petstore_doc (PDict ?kvs)"
  proof -
    have e: "PDict [(''paths'', PDict [(''/pets'', PDict ?kvs)]),
                    (''components'', PDict [(''schemas'', PDict ?d)])] = petstore_doc"
      by (simp add: petstore_doc_def)
    have a: "reached petstore_doc
               (PDict [(''paths'', PDict [(''/pets'', PDict ?kvs)]),
                       (''components'', PDict [(''schemas'', PDict ?d)])])"
      unfolding e by (rule reached_root)
    have b: "reached petstore_doc (PDict [(''/pets'', PDict ?kvs)])"
      by (rule reached_item [where k = "''paths''", OF a]) simp_all
    show ?thesis
      by (rule reached_item [where k = "''/pets''", OF b]) simp_all
  qed
  have c1: "resolve_ref (PDict ?kvs) petstore_doc = Inl (KeyError ''Missing'')"
    using T [THEN conjunct2, THEN conjunct1] r sp w m by blast
  have c2: "isl (resolve_refs petstore_doc)"
    using T [THEN conjunct2, THEN conjunct2, THEN conjunct1] r sp w m rc by blast
  have c3: "resolve_ref (PDict [(''$ref'', PStr ''#/components/schemas/Pet'')]) petstore_doc
     = Inr (PDict [(''type'', PStr ''object'')])"
    using resolve_refs_internal_and_external
      [where kvs = "[(''$ref'', PStr ''#/components/schemas/Pet'')]"
         and p = "''components/schemas/Pet''" and sroot = petstore_doc, THEN conjunct1]
    by (simp add: petstore_doc_def)
  have c4: "resolve_ref (PDict [(''$ref'', PStr ''other.yaml#/Pet'')]) petstore_doc
     = Inr (PDict [(''$ref'', PStr ''other.yaml#/Pet'')])"
    using resolve_refs_internal_and_external
      [where kvs = "[(''$ref'', PStr ''other.yaml#/Pet'')]" and r = "''other.yaml#/Pet''"
         and sroot = petstore_doc,
       THEN conjunct2, THEN conjunct2, THEN conjunct2, THEN conjunct1]
    by (simp add: startswith_def)
  have c5: "resolve_refs library_doc
     = Inr (PDict [(''paths'',
                    PDict [(''/books'', PList [PDict [(''type'', PStr ''object'')],
                                              PDict [(''$ref'', PStr ''common.yaml#/Error'')],
                                              PInt 7])]),
                   (''components'',
                    PDict [(''schemas'', PDict [(''Book'', PDict [(''type'', PStr ''object'')])])])])"
    by (simp add: resolve_refs_def library_doc_def startswith_def)
  show ?thesis using c1 c2 c3 c4 c5 by blast
qed

subsection \<open>Test-data synthesis\<close>

lemma dict_set_fresh: "k \<notin> fst ` set d \<Longrightarrow> dict_set d k v = d @ [(k, v)]"
  by (induction d) auto

lemma generate_fields_step:
  "generate_fields ((f, fs) # rest) acc =
     (case synth_property f fs of
        Inl e \<Rightarrow> Inl e
      | Inr None \<Rightarrow> generate_fields rest acc
      | Inr (Some v) \<Rightarrow> generate_fields rest (dict_set acc f v))"
  by (cases fs) (simp_all add: synth_property_def string_default_def Let_def split: sum.splits)

lemma generate_fields_refines:
  "distinct (map fst ps) \<Longrightarrow> fst ` set ps \<inter> fst ` set acc = {} \<Longrightarrow>
   generate_fields ps acc =
     (case synth_properties ps of Inl e \<Rightarrow> Inl e | Inr es \<Rightarrow> Inr (acc @ es))"
proof (induction ps arbitrary: acc)
  case Nil
  show ?case by simp
next
  case (Cons p ps)
  obtain f fs where p: "p = (f, fs)" by (cases p)
  have d: "distinct (map fst ps)" and nf: "f \<notin> fst ` set ps" and na: "f \<notin> fst ` set acc"
    and dj: "fst ` set ps \<inter> fst ` set acc = {}"
    using Cons.prems p by auto
  show ?case
  proof (cases "synth_property f fs")
    case (Inl e)
    then show ?thesis by (simp add: p generate_fields_step del: generate_fields.simps)
  next
    case (Inr vo)
    show ?thesis
    proof (cases vo)
      case None
      then show ?thesis
        using Inr Cons.IH [OF d dj]
        by (simp add: p generate_fields_step del: generate_fields.simps split: sum.splits)
    next
      case (Some v)
      have dj': "fst ` set ps \<inter> fst ` set (acc @ [(f, v)]) = {}"
        using dj nf by auto
      show ?thesis
        using Inr Some Cons.IH [OF d dj'] dict_set_fresh [OF na, of v]
        by (simp add: p generate_fields_step del: generate_fields.simps split: sum.splits)
    qed
  qed
qed

text \<open>
  C5. On a non-empty schema whose \<^verbatim>\<open>properties\<close> is a dict, synthesis yields the
  declared properties in order, each mapped by its type alone: a string (the default type)
  to the default its name selects, integer to 42, number to 42.0, boolean to true, array
  to the two placeholders, object to the synthesis of the property's own schema; and
  \<^verbatim>\<open>{"type":"object","properties":{"email":{"type":"string"}}}\<close> yields
  \<^verbatim>\<open>{"email":"test@example.com"}\<close>.
\<close>

theorem generate_test_data_by_type:
  "(kvs \<noteq> [] \<and> dict_get kvs ''properties'' (PDict []) = PDict props \<and> distinct (map fst props) \<longrightarrow>
      generate_test_data (PDict kvs) =
        (case synth_properties props of Inl e \<Rightarrow> Inl e | Inr es \<Rightarrow> Inr (PDict es))) \<and>
   generate_test_data
     (PDict [(''type'', PStr ''object''),
             (''properties'', PDict [(''email'', PDict [(''type'', PStr ''string'')])])])
     = Inr (PDict [(''email'', PStr ''test@example.com'')])"
proof (intro conjI impI)
  assume a: "kvs \<noteq> [] \<and> dict_get kvs ''properties'' (PDict []) = PDict props \<and> distinct (map fst props)"
  then have "generate_fields props [] =
     (case synth_properties props of Inl e \<Rightarrow> Inl e | Inr es \<Rightarrow> Inr ([] @ es))"
    by (intro generate_fields_refines) simp_all
  then show "generate_test_data (PDict kvs) =
        (case synth_properties props of Inl e \<Rightarrow> Inl e | Inr es \<Rightarrow> Inr (PDict es))"
    using a by (simp add: generate_test_data.simps split: sum.splits)
next
  show "generate_test_data
     (PDict [(''type'', PStr ''object''),
             (''properties'', PDict [(''email'', PDict [(''type'', PStr ''string'')])])])
     = Inr (PDict [(''email'', PStr ''test@example.com'')])"
    by (simp add: generate_test_data.simps dict_get_def lower_def to_lower_def
        ascii_lowercase_def ascii_uppercase_def)
qed


theorem generate_test_data_by_type_witness:
  "generate_test_data (PDict [(''type'', PStr ''object''), (''properties'', PDict pet_properties)])
     = Inr (PDict
         [(''email'', PStr ''test@example.com''),
          (''Name'', PStr ''Test Name''),
          (''id'', PStr ''test-id-123''),
          (''nick'', PStr ''test_nick''),
          (''age'', PInt 42),
          (''score'', PFloat 42),
          (''active'', PBool True),
          (''tags'', PList [PStr ''item1'', PStr ''item2'']),
          (''owner'', PDict [(''uuid'', PStr ''test-id-123'')])])"
proof -
  let ?kvs = "[(''type'', PStr ''object''), (''properties'', PDict pet_properties)]"
  note T = generate_test_data_by_type [of ?kvs pet_properties, THEN conjunct1]
  have h: "?kvs \<noteq> [] \<and> dict_get ?kvs ''properties'' (PDict []) = PDict pet_properties \<and>
           distinct (map fst pet_properties)"
    by (simp add: dict_get_def pet_properties_def)
  have lo: "lower ''email'' = ''email''" "lower ''Name'' = ''name''" "lower ''id'' = ''id''"
    "lower ''nick'' = ''nick''" "lower ''uuid'' = ''uuid''"
    by (simp_all add: lower_def to_lower_def ascii_lowercase_def ascii_uppercase_def)
  have ti: "title ''Name'' = ''Name''"
    by (simp add: title_def to_lower_def to_upper_def ascii_lowercase_def ascii_uppercase_def)
  have e: "synth_properties pet_properties =
     Inr [(''email'', PStr ''test@example.com''),
          (''Name'', PStr ''Test Name''),
          (''id'', PStr ''test-id-123''),
          (''nick'', PStr ''test_nick''),
          (''age'', PInt 42),
          (''score'', PFloat 42),
          (''active'', PBool True),
          (''tags'', PList [PStr ''item1'', PStr ''item2'']),
          (''owner'', PDict [(''uuid'', PStr ''test-id-123'')])]"
    by (simp add: pet_properties_def synth_property_def string_default_def dict_get_def lo ti
        generate_test_data.simps)
  show ?thesis using T h e by simp
qed

subsection \<open>Fetching from a repository\<close>

lemma sublist_after_prefix: "sublist t e \<Longrightarrow> sublist t (p @ e)"
  by (auto simp: sublist_append)

text \<open>
  C2, as the code has it. When the clone fails, the error raised is a \<^verbatim>\<open>ValueError\<close>
  whose message is "Failed to clone Git repository: " followed by the text of the clone
  exception, unchanged: nothing is redacted, and whatever that text contains (the token
  included) the message contains.
\<close>

theorem fetch_from_git_message_verbatim:
  assumes "clone_from env (clone_url env cfg)
             (case branch cfg of Some b \<Rightarrow> b | None \<Rightarrow> ''main'') = GitCommandError e"
  shows "fetch_from_git env cfg = Inl (ValueError (''Failed to clone Git repository: '' @ e)) \<and>
         (sublist t e \<longrightarrow> sublist t (''Failed to clone Git repository: '' @ e))"
proof
  show "fetch_from_git env cfg = Inl (ValueError (''Failed to clone Git repository: '' @ e))"
    using assms by (simp add: fetch_from_git_def)
  show "sublist t e \<longrightarrow> sublist t (''Failed to clone Git repository: '' @ e)"
    using sublist_after_prefix [of t e "''Failed to clone Git repository: ''"] by blast
qed

theorem fetch_from_git_message_verbatim_witness:
  "fetch_from_git github_env private_repo =
     Inl (ValueError (''Failed to clone Git repository: '' @
            ''Cmd git failed due to: exit code(128) cmdline: git clone --branch=main '' @
            ''https://ghp_SECRET@github.com/acme/api.git''))"
proof -
  have h: "clone_from github_env (clone_url github_env private_repo)
             (case branch private_repo of Some b \<Rightarrow> b | None \<Rightarrow> ''main'')
           = GitCommandError (''Cmd git failed due to: exit code(128) cmdline: git clone --branch=main '' @
                ''https://ghp_SECRET@github.com/acme/api.git'')"
    by (simp add: github_env_def private_repo_def clone_url_def)
  show ?thesis
    using fetch_from_git_message_verbatim [OF h, THEN conjunct1] .
qed

text \<open>
  C2 as stated fails: with a token in the descriptor, the error message of a failed clone
  whose text shows the command line contains the token.
\<close>

theorem fetch_from_git_leaks_token:
  "fetch_from_git github_env private_repo =
     Inl (ValueError (''Failed to clone Git repository: Cmd git failed due to: exit code(128) cmdline: git clone --branch=main https://'' @ ''ghp_SECRET'' @ ''@github.com/acme/api.git'')) \<and>
   token private_repo = Some ''ghp_SECRET'' \<and>
   sublist ''ghp_SECRET'' (''Failed to clone Git repository: Cmd git failed due to: exit code(128) cmdline: git clone --branch=main https://'' @ ''ghp_SECRET'' @ ''@github.com/acme/api.git'')"
proof (intro conjI)
  show "fetch_from_git github_env private_repo =
     Inl (ValueError (''Failed to clone Git repository: Cmd git failed due to: exit code(128) cmdline: git clone --branch=main https://'' @ ''ghp_SECRET'' @ ''@github.com/acme/api.git''))"
    by (simp add: fetch_from_git_def github_env_def private_repo_def clone_url_def)
  show "token private_repo = Some ''ghp_SECRET''"
    by (simp add: private_repo_def)
  show "sublist ''ghp_SECRET'' (''Failed to clone Git repository: Cmd git failed due to: exit code(128) cmdline: git clone --branch=main https://'' @ ''ghp_SECRET'' @ ''@github.com/acme/api.git'')"
    by (rule sublist_appendI)
qed

end
